theory Spec2Isabelle
  imports Complex_Main "HOL-Library.Multiset"
begin

section \<open>Data model\<close>

text \<open>
  The persistence layer is SQLAlchemy. A table is modelled as the list of its rows in
  insertion order. The classes \<open>Transaction\<close> and \<open>Category\<close> live in
  \<open>app/models.py\<close>, which is not among the source files; their columns are read off
  the constructor calls and attribute accesses of \<open>app/routes.py\<close>.

  Amounts are exact decimals (rationals); binary floating point rounding is not modelled.
  A calendar date carries the three components that \<open>extract\<close> reads.
\<close>

record date =
  year :: int
  month :: int
  day :: int

text \<open>
  \<open>Transaction(amount, description, transaction_type, date, category_id,
  receipt_filename, notes, user_id)\<close> of \<open>add_transaction\<close>, with the primary key
  \<open>id\<close> (here \<open>txn_id\<close>; \<open>notes\<close> is \<open>txn_notes\<close>) and the server-assigned \<open>created_at\<close> by which the
  dashboard orders its recent list.
\<close>

record transaction =
  txn_id :: int
  amount :: rat
  description :: string
  transaction_type :: string
  date :: date
  category_id :: "int option"
  receipt_filename :: "string option"
  txn_notes :: string
  user_id :: int
  created_at :: int

text \<open>\<open>Category(name, color, user_id)\<close> of \<open>register\<close>, with its primary key.\<close>

record category =
  cat_id :: int
  cat_name :: string
  cat_color :: string
  cat_user_id :: int

text \<open>
  The block \<open># Create default categories\<close> of \<open>register\<close>, the only statement of
  the application that adds a category: eight rows for the user just created, with the
  primary keys the database hands out, from \<open>first_id\<close> on.
\<close>

definition default_categories :: "(string \<times> string) list" where
  "default_categories =
     [(''Food & Dining'', ''#ff6b6b''), (''Transportation'', ''#4ecdc4''),
      (''Shopping'', ''#45b7d1''), (''Entertainment'', ''#f9ca24''),
      (''Bills & Utilities'', ''#f0932b''), (''Healthcare'', ''#eb4d4b''),
      (''Salary'', ''#6c5ce7''), (''Other'', ''#a0a0a0'')]"

fun new_categories :: "int \<Rightarrow> int \<Rightarrow> (string \<times> string) list \<Rightarrow> category list" where
  "new_categories uid i [] = []"
| "new_categories uid i ((name, color) # rest) =
     \<lparr>cat_id = i, cat_name = name, cat_color = color, cat_user_id = uid\<rparr>
       # new_categories uid (i + 1) rest"

definition register_categories :: "int \<Rightarrow> int \<Rightarrow> category list \<Rightarrow> category list" where
  "register_categories uid first_id cats = cats @ new_categories uid first_id default_categories"

section \<open>Aggregation: the queries of \<open>dashboard\<close>\<close>

text \<open>
  \<open>.filter_by(user_id=current_user.id, transaction_type=ty)\<close>
\<close>

definition filter_by_user_type :: "int \<Rightarrow> string \<Rightarrow> transaction list \<Rightarrow> transaction list" where
  "filter_by_user_type u ty rows = filter (\<lambda>t. user_id t = u \<and> transaction_type t = ty) rows"

text \<open>
  \<open>.filter(extract('month', Transaction.date) == current_month)\<close> and
  \<open>.filter(extract('year', Transaction.date) == current_year)\<close>. The route reads the
  month and the year off the clock; here they are arguments.
\<close>

definition filter_month :: "int \<Rightarrow> transaction list \<Rightarrow> transaction list" where
  "filter_month m rows = filter (\<lambda>t. month (date t) = m) rows"

definition filter_year :: "int \<Rightarrow> transaction list \<Rightarrow> transaction list" where
  "filter_year y rows = filter (\<lambda>t. year (date t) = y) rows"

text \<open>
  \<open>func.sum(Transaction.amount)\<close> followed by \<open>.scalar()\<close>: SQL's \<open>SUM\<close> over no
  rows is \<open>NULL\<close>, which arrives in Python as \<open>None\<close>.
\<close>

definition func_sum :: "rat list \<Rightarrow> rat option" where
  "func_sum xs = (if xs = [] then None else Some (sum_list xs))"

text \<open>Python's \<open>x or 0\<close>: \<open>None\<close> and a zero sum are both falsy.\<close>

definition or_zero :: "rat option \<Rightarrow> rat" where
  "or_zero r = (case r of None \<Rightarrow> 0 | Some v \<Rightarrow> (if v = 0 then 0 else v))"

definition monthly_income :: "int \<Rightarrow> int \<Rightarrow> int \<Rightarrow> transaction list \<Rightarrow> rat" where
  "monthly_income u m y rows =
     or_zero (func_sum (map amount
       (filter_year y (filter_month m (filter_by_user_type u ''income'' rows)))))"

definition monthly_expenses :: "int \<Rightarrow> int \<Rightarrow> int \<Rightarrow> transaction list \<Rightarrow> rat" where
  "monthly_expenses u m y rows =
     or_zero (func_sum (map amount
       (filter_year y (filter_month m (filter_by_user_type u ''expense'' rows)))))"

text \<open>The pair the specification calls computeMonthlySummary.\<close>

definition monthly_summary :: "int \<Rightarrow> int \<Rightarrow> int \<Rightarrow> transaction list \<Rightarrow> rat \<times> rat" where
  "monthly_summary u m y rows = (monthly_income u m y rows, monthly_expenses u m y rows)"

text \<open>
  \<open>db.session.query(Category.name, func.sum(Transaction.amount)).join(Transaction)\<close>:
  an inner join of the category table with the transaction table on the foreign key
  \<open>Transaction.category_id = Category.id\<close>. A row whose \<open>category_id\<close> is \<open>NULL\<close>
  joins with no category.
\<close>

definition join_transaction :: "category list \<Rightarrow> transaction list \<Rightarrow> (category \<times> transaction) list" where
  "join_transaction cats rows =
     concat (map (\<lambda>c. map (\<lambda>t. (c, t)) (filter (\<lambda>t. category_id t = Some (cat_id c)) rows)) cats)"

text \<open>
  The four \<open>.filter(...)\<close> calls of the category query, on the joined rows.
\<close>

definition qualifying_expense :: "int \<Rightarrow> int \<Rightarrow> int \<Rightarrow> transaction \<Rightarrow> bool" where
  "qualifying_expense u m y t \<longleftrightarrow>
     user_id t = u \<and> transaction_type t = ''expense'' \<and> month (date t) = m \<and> year (date t) = y"

text \<open>
  \<open>.group_by(Category.name).all()\<close>: one result row per distinct name among the
  joined rows, with the sum of the amounts of that group. SQL leaves the order of the
  groups open; the model lists them by first occurrence.
\<close>

definition group_by_name :: "(category \<times> transaction) list \<Rightarrow> (string \<times> rat) list" where
  "group_by_name joined =
     map (\<lambda>n. (n, sum_list (map (\<lambda>(c, t). amount t) (filter (\<lambda>(c, t). cat_name c = n) joined))))
       (remdups (map (\<lambda>(c, t). cat_name c) joined))"

definition category_expenses :: "category list \<Rightarrow> int \<Rightarrow> int \<Rightarrow> int \<Rightarrow> transaction list \<Rightarrow> (string \<times> rat) list" where
  "category_expenses cats u m y rows =
     group_by_name (filter (\<lambda>(c, t). qualifying_expense u m y t) (join_transaction cats rows))"

text \<open>
  Modelled from the spec: \<open>User.get_balance\<close> of \<open>app/models.py\<close>, which the
  dashboard calls for \<open>total_balance\<close> and which is not among the source files. The
  specification gives it as the sum of the amounts of type income minus the sum of the
  amounts of type expense, over all transactions of the user, with no date bound.
\<close>

definition user_transactions :: "int \<Rightarrow> transaction list \<Rightarrow> transaction list" where
  "user_transactions u rows = filter (\<lambda>t. user_id t = u) rows"

definition get_balance :: "int \<Rightarrow> transaction list \<Rightarrow> rat" where
  "get_balance u rows =
     sum_list (map amount (filter (\<lambda>t. transaction_type t = ''income'') (user_transactions u rows)))
     - sum_list (map amount (filter (\<lambda>t. transaction_type t = ''expense'') (user_transactions u rows)))"

text \<open>The amount of a row with its sign: income counts up, expense counts down.\<close>

definition signed_amount :: "transaction \<Rightarrow> rat" where
  "signed_amount t =
     (if transaction_type t = ''income'' then amount t
      else if transaction_type t = ''expense'' then - amount t else 0)"

text \<open>The scenario of the specification's testable properties, as rows of user 1.\<close>

definition mk_txn :: "int \<Rightarrow> rat \<Rightarrow> string \<Rightarrow> int \<Rightarrow> int \<Rightarrow> int \<Rightarrow> int option \<Rightarrow> transaction" where
  "mk_txn i a ty y m d c =
     \<lparr>txn_id = i, amount = a, description = ''row'', transaction_type = ty,
      date = \<lparr>year = y, month = m, day = d\<rparr>, category_id = c, receipt_filename = None,
      txn_notes = [], user_id = 1, created_at = i\<rparr>"

definition scenario_rows :: "transaction list" where
  "scenario_rows =
     [mk_txn 1 3000 ''income'' 2024 1 5 None,
      mk_txn 2 450 ''expense'' 2024 1 10 (Some 1),
      mk_txn 3 80 ''expense'' 2024 2 1 (Some 2)]"

definition scenario_categories :: "category list" where
  "scenario_categories =
     [\<lparr>cat_id = 1, cat_name = ''Food'', cat_color = ''#ff6b6b'', cat_user_id = 1\<rparr>,
      \<lparr>cat_id = 2, cat_name = ''Transport'', cat_color = ''#4ecdc4'', cat_user_id = 1\<rparr>]"

text \<open>
  Two notions the statements about the breakdown use, both in terms of the two tables
  alone: the categories that some expense of user \<open>u\<close> dated in month \<open>m\<close> of year
  \<open>y\<close> refers to, and the total of the amounts of such expenses that refer to a
  category named \<open>n\<close>.
\<close>

definition spending_categories :: "category list \<Rightarrow> int \<Rightarrow> int \<Rightarrow> int \<Rightarrow> transaction list \<Rightarrow> category set" where
  "spending_categories cats u m y rows =
     {c \<in> set cats. \<exists>t \<in> set rows. category_id t = Some (cat_id c) \<and> qualifying_expense u m y t}"

definition category_total :: "category list \<Rightarrow> int \<Rightarrow> int \<Rightarrow> int \<Rightarrow> transaction list \<Rightarrow> string \<Rightarrow> rat" where
  "category_total cats u m y rows n =
     sum_list (map amount
       (filter (\<lambda>t. qualifying_expense u m y t
                  \<and> (\<exists>c \<in> set cats. cat_name c = n \<and> category_id t = Some (cat_id c))) rows))"

text \<open>An expense of January 2024 with no category, for the scenario.\<close>

definition cash_expense :: transaction where
  "cash_expense = mk_txn 4 20 ''expense'' 2024 1 15 None"


section \<open>What the libraries decide\<close>

text \<open>
  Three things that the library calls of one request do are not computed by this model
  but taken as given, like the random token of a stored name:
  \<^item> \<open>unicodedata.normalize("NFKD", s)\<close>, the first step of werkzeug's
    \<open>secure_filename\<close>, on a name with non-ASCII characters;
  \<^item> which of two equally near whole numbers Pillow's size computation picks: it works
    in floats, where the two distances need not come out equal;
  \<^item> whether \<open>os.makedirs\<close> and \<open>img.save\<close> inside \<open>create_thumbnail\<close> raise.
    \<open>img.save\<close> raises for an image whose mode the format of the extension cannot
    hold (an RGBA image under a name ending in .jpg) and when the file system refuses.
    \<open>Save_raises None\<close>: the file could not be opened. \<open>Save_raises (Some s)\<close>: the
    file was opened for writing and \<open>s\<close> written before the exception; Pillow then
    removes the file if it had created it.
\<close>

datatype thumbnail_io = Thumbnail_saved | Makedirs_raises | Save_raises "string option"

record library =
  nfkd :: "string \<Rightarrow> string"
  tie_to_ceiling :: bool
  thumb_io :: thumbnail_io

section \<open>Strings and paths: the library calls of \<open>app/utils.py\<close>\<close>

text \<open>
  Strings are byte strings, a Python \<open>str\<close> in UTF-8. \<open>str.lower()\<close> is modelled
  on the letters \<open>A\<close> to \<open>Z\<close>; other bytes stay as they are. The code compares
  lower-cased text with ASCII extensions only, and no character outside ASCII has a lower
  case made of the letters of png, jpg, jpeg or pdf, so these comparisons come out as in
  Python.
\<close>

definition lower_char :: "char \<Rightarrow> char" where
  "lower_char c =
     (case map_of (zip ''ABCDEFGHIJKLMNOPQRSTUVWXYZ'' ''abcdefghijklmnopqrstuvwxyz'') c of
        None \<Rightarrow> c | Some d \<Rightarrow> d)"

definition lower :: "string \<Rightarrow> string" where
  "lower s = map lower_char s"

text \<open>
  \<open>filename.rsplit('.', 1)[1]\<close> where the name has a dot, and
  \<open>name.split('.')[-1]\<close> always: the text after the last dot.
\<close>

definition after_last_dot :: "string \<Rightarrow> string" where
  "after_last_dot s = rev (takeWhile (\<lambda>c. c \<noteq> CHR ''.'') (rev s))"

definition ALLOWED_EXTENSIONS :: "string set" where
  "ALLOWED_EXTENSIONS = {''png'', ''jpg'', ''jpeg'', ''pdf''}"

definition allowed_file :: "string \<Rightarrow> bool" where
  "allowed_file filename \<longleftrightarrow>
     CHR ''.'' \<in> set filename \<and> lower (after_last_dot filename) \<in> ALLOWED_EXTENSIONS"

text \<open>
  \<open>str(user_id)\<close>: the decimal numeral of an integer.
\<close>

definition digit_char :: "nat \<Rightarrow> char" where
  "digit_char d = ''0123456789'' ! (d mod 10)"

fun str_nat :: "nat \<Rightarrow> string" where
  "str_nat n = (if n < 10 then [digit_char n] else str_nat (n div 10) @ [digit_char (n mod 10)])"

declare str_nat.simps [simp del]

definition str :: "int \<Rightarrow> string" where
  "str i = (if i < 0 then CHR ''-'' # str_nat (nat (- i)) else str_nat (nat i))"

text \<open>
  \<open>os.path.join(a, *p)\<close> of \<open>posixpath\<close>: a component that starts with a slash
  discards what came before it; otherwise it is appended, after a slash unless the path
  so far is empty or ends in one.
\<close>

definition join2 :: "string \<Rightarrow> string \<Rightarrow> string" where
  "join2 a b =
     (if b \<noteq> [] \<and> hd b = CHR ''/'' then b
      else if a = [] \<or> last a = CHR ''/'' then a @ b
      else a @ CHR ''/'' # b)"

definition path_join :: "string \<Rightarrow> string list \<Rightarrow> string" where
  "path_join a p = foldl join2 a p"

text \<open>
  \<open>os.path.splitext\<close> of \<open>posixpath\<close>: the extension starts at the last dot,
  provided that dot comes after the last slash and some character other than a dot
  stands between that slash and it.
\<close>

definition splitext :: "string \<Rightarrow> string \<times> string" where
  "splitext p =
     (let e = after_last_dot p;
          stem = take (length p - length e - 1) p;
          base = rev (takeWhile (\<lambda>c. c \<noteq> CHR ''/'') (rev stem))
      in if CHR ''.'' \<in> set p \<and> CHR ''/'' \<notin> set e \<and> (\<exists>c \<in> set base. c \<noteq> CHR ''.'')
         then (stem, CHR ''.'' # e) else (p, []))"

text \<open>
  \<open>werkzeug.utils.secure_filename\<close>: normalise to NFKD and keep the ASCII characters,
  turn slashes into blanks, join the blank-separated words with underscores, drop every
  character outside letters, digits, underscore, dot and hyphen, and strip dots and
  underscores from both ends. NFKD leaves an ASCII name as it is; for any other name the
  normalised text is what the library gives.
\<close>

definition is_space :: "char \<Rightarrow> bool" where
  "is_space c \<longleftrightarrow>
     c \<in> set [CHR 0x09, CHR 0x0A, CHR 0x0B, CHR 0x0C, CHR 0x0D,
               CHR 0x1C, CHR 0x1D, CHR 0x1E, CHR 0x1F, CHR 0x20]"

fun split_ws :: "string \<Rightarrow> string \<Rightarrow> string list" where
  "split_ws acc [] = (if acc = [] then [] else [rev acc])"
| "split_ws acc (c # cs) =
     (if is_space c then (if acc = [] then split_ws [] cs else rev acc # split_ws [] cs)
      else split_ws (c # acc) cs)"

definition join_underscore :: "string list \<Rightarrow> string" where
  "join_underscore ws =
     (case ws of [] \<Rightarrow> [] | w # rest \<Rightarrow> w @ concat (map (\<lambda>v. CHR ''_'' # v) rest))"

definition is_ascii :: "char \<Rightarrow> bool" where
  "is_ascii c \<longleftrightarrow> \<not> digit7 c"

definition safe_char :: "char \<Rightarrow> bool" where
  "safe_char c \<longleftrightarrow>
     c \<in> set ''ABCDEFGHIJKLMNOPQRSTUVWXYZabcdefghijklmnopqrstuvwxyz0123456789_.-''"

definition strip_dots_underscores :: "string \<Rightarrow> string" where
  "strip_dots_underscores s =
     rev (dropWhile (\<lambda>c. c \<in> set ''._'') (rev (dropWhile (\<lambda>c. c \<in> set ''._'') s)))"

definition normalize_nfkd :: "library \<Rightarrow> string \<Rightarrow> string" where
  "normalize_nfkd lib s = (if list_all is_ascii s then s else nfkd lib s)"

definition secure_filename :: "library \<Rightarrow> string \<Rightarrow> string" where
  "secure_filename lib filename =
     strip_dots_underscores (filter safe_char (join_underscore (split_ws []
       (map (\<lambda>c. if c = CHR ''/'' then CHR '' '' else c)
          (filter is_ascii (normalize_nfkd lib filename))))))"

section \<open>Images: the Pillow calls of \<open>create_thumbnail\<close>\<close>

text \<open>
  What a stored file holds: bytes that Pillow's \<open>Image.open\<close> and decoder accept as
  a raster image of a width and a height, or any other bytes (a PDF, a text file, a
  damaged image).
\<close>

datatype file_data = Picture nat nat | Octets string

text \<open>
  \<open>img.thumbnail((200, 200), Image.Resampling.LANCZOS)\<close>. Pillow keeps an image
  that already fits; otherwise it fits the image into the box, scaling the other side by
  the aspect ratio and rounding it to the nearer of floor and ceiling, with 1 as the
  least. The arithmetic is exact here where Pillow's is in floats; where the two
  candidates are equally near, \<open>tie\<close> says whether the ceiling is taken. An image of
  height 0 that does not fit makes the division raise, which is \<open>None\<close>.
\<close>

definition round_aspect :: "bool \<Rightarrow> rat \<Rightarrow> (int \<Rightarrow> rat) \<Rightarrow> int" where
  "round_aspect tie number key =
     max (if key \<lfloor>number\<rfloor> < key \<lceil>number\<rceil> then \<lfloor>number\<rfloor>
          else if key \<lceil>number\<rceil> < key \<lfloor>number\<rfloor> then \<lceil>number\<rceil>
          else if tie then \<lceil>number\<rceil> else \<lfloor>number\<rfloor>) 1"

definition thumbnail_size :: "bool \<Rightarrow> nat \<times> nat \<Rightarrow> nat \<times> nat \<Rightarrow> (nat \<times> nat) option" where
  "thumbnail_size tie box sz =
     (let x = fst box; y = snd box; w = fst sz; h = snd sz in
      if x \<ge> w \<and> y \<ge> h then Some (w, h)
      else if h = 0 then None
      else let aspect = rat_of_nat w / rat_of_nat h in
        if rat_of_nat x / rat_of_nat y \<ge> aspect
        then Some (nat (round_aspect tie (rat_of_nat y * aspect)
                     (\<lambda>n. \<bar>aspect - rat_of_int n / rat_of_nat y\<bar>)), y)
        else Some (x, nat (round_aspect tie (rat_of_nat x / aspect)
                     (\<lambda>n. if n = 0 then 0 else \<bar>aspect - rat_of_nat x / rat_of_int n\<bar>))))"

section \<open>The file system and the receipt store\<close>

text \<open>
  The upload folder as the code sees it: which paths hold a file, and which directories
  \<open>os.makedirs\<close> has made. A path of a receipt names a file or nothing. Writing and
  removing a file are taken to succeed.
\<close>

record filesystem =
  files :: "string \<rightharpoonup> file_data"
  dirs :: "string set"

definition makedirs :: "string \<Rightarrow> filesystem \<Rightarrow> filesystem" where
  "makedirs p fs = fs\<lparr>dirs := insert p (dirs fs)\<rparr>"

definition write_file :: "string \<Rightarrow> file_data \<Rightarrow> filesystem \<Rightarrow> filesystem" where
  "write_file p d fs = fs\<lparr>files := (files fs)(p \<mapsto> d)\<rparr>"

text \<open>\<open>if os.path.exists(p): os.remove(p)\<close>\<close>

definition remove_if_exists :: "string \<Rightarrow> filesystem \<Rightarrow> filesystem" where
  "remove_if_exists p fs = (if p \<in> dom (files fs) then fs\<lparr>files := (files fs)(p := None)\<rparr> else fs)"

text \<open>A werkzeug \<open>FileStorage\<close>: the name the client sent and the bytes.\<close>

record upload =
  filename :: string
  data :: file_data

text \<open>
  The two names the code builds: \<open>f"{user_id}_{uuid.uuid4().hex[:8]}{ext}"\<close> in
  \<open>save_receipt_file\<close>, where \<open>token\<close> stands for the eight hexadecimal digits
  drawn at random, and \<open>f"{name}_thumb{ext}"\<close> in \<open>create_thumbnail\<close>, from
  \<open>os.path.splitext\<close> of the name it is given.
\<close>

definition unique_name :: "int \<Rightarrow> string \<Rightarrow> string \<Rightarrow> string" where
  "unique_name uid token ext = str uid @ ''_'' @ token @ ext"

definition thumb_name :: "string \<Rightarrow> string" where
  "thumb_name fname = (let (name, ext) = splitext fname in name @ ''_thumb'' @ ext)"

text \<open>
  \<open>create_thumbnail(file_path, user_id, filename)\<close>, in the order of its statements:
  open and decode, resize, build the name, make the directory, save. Every exception
  inside is caught and printed, so the function returns the file system it reached or
  the one it started from. A failed \<open>img.save\<close> leaves no thumbnail: a file that
  Pillow created is removed again, and a file that was there before is left with the
  bytes written so far. \<open>folder\<close> is \<open>current_app.config['UPLOAD_FOLDER']\<close>.
\<close>

definition create_thumbnail :: "library \<Rightarrow> string \<Rightarrow> string \<Rightarrow> int \<Rightarrow> string \<Rightarrow> filesystem \<Rightarrow> filesystem" where
  "create_thumbnail lib folder file_path uid fname fs =
     (case files fs file_path of
        Some (Picture w h) \<Rightarrow>
          (case thumbnail_size (tie_to_ceiling lib) (200, 200) (w, h) of
             None \<Rightarrow> fs
           | Some (w', h') \<Rightarrow>
               (let thumb_filename = thumb_name fname;
                    thumb_dir = path_join folder [str uid, ''thumbnails''];
                    thumb_path = path_join thumb_dir [thumb_filename]
                in case thumb_io lib of
                     Makedirs_raises \<Rightarrow> fs
                   | Save_raises left \<Rightarrow>
                       (let fs1 = makedirs thumb_dir fs in
                        case (files fs1 thumb_path, left) of
                          (Some old, Some s) \<Rightarrow> write_file thumb_path (Octets s) fs1
                        | _ \<Rightarrow> fs1)
                   | Thumbnail_saved \<Rightarrow>
                       write_file thumb_path (Picture w' h') (makedirs thumb_dir fs)))
      | _ \<Rightarrow> fs)"

text \<open>
  \<open>save_receipt_file(file, user_id)\<close>. The result is the returned name (\<open>None\<close>
  for Python's \<open>None\<close>) and the file system afterwards. Making the user's directory and
  writing the original are taken to succeed.
\<close>

definition save_receipt_file :: "library \<Rightarrow> string \<Rightarrow> string \<Rightarrow> upload option \<Rightarrow> int \<Rightarrow> filesystem \<Rightarrow> string option \<times> filesystem" where
  "save_receipt_file lib folder token file uid fs =
     (case file of
        None \<Rightarrow> (None, fs)
      | Some f \<Rightarrow>
          if filename f \<noteq> [] \<and> allowed_file (filename f) then
            (let fname = secure_filename lib (filename f);
                 (name, ext) = splitext fname;
                 unique_filename = unique_name uid token ext;
                 user_upload_dir = path_join folder [str uid];
                 fs1 = makedirs user_upload_dir fs;
                 file_path = path_join user_upload_dir [unique_filename];
                 fs2 = write_file file_path (data f) fs1;
                 fs3 = (if lower ext \<in> set [''.png'', ''.jpg'', ''.jpeg'']
                        then create_thumbnail lib folder file_path uid unique_filename fs2 else fs2)
             in (Some unique_filename, fs3))
          else (None, fs))"

section \<open>The transaction form of \<open>app/forms.py\<close>\<close>

text \<open>
  The data of a submitted \<open>TransactionForm\<close> after the fields have coerced their
  input: a \<open>FloatField\<close>, a \<open>DateField\<close> and a \<open>SelectField\<close> with
  \<open>coerce=int\<close> hold \<open>None\<close> when the input does not parse, and the
  \<open>FileField\<close> holds \<open>None\<close> when no file part with a name came in.
\<close>

record transaction_form =
  form_amount :: "rat option"
  form_description :: string
  form_transaction_type :: string
  form_category_id :: "int option"
  form_date :: "date option"
  form_receipt :: "upload option"
  form_notes :: string

datatype request = GET | POST transaction_form

text \<open>
  Truthiness, as \<open>if form.receipt.data:\<close> tests it: a \<open>FileStorage\<close> is true
  when its filename is not empty, and \<open>None\<close> is false. In the same way
  \<open>if transaction.receipt_filename:\<close> is false for \<open>None\<close> and for the empty name.
\<close>

definition upload_present :: "upload option \<Rightarrow> bool" where
  "upload_present r = (case r of None \<Rightarrow> False | Some f \<Rightarrow> filename f \<noteq> [])"

definition endswith :: "string \<Rightarrow> string \<Rightarrow> bool" where
  "endswith s suf \<longleftrightarrow> length suf \<le> length s \<and> drop (length s - length suf) s = suf"

text \<open>
  \<open>FileAllowed(['jpg', 'jpeg', 'png', 'pdf'], 'Images and PDFs only!')\<close>: with a file
  present, its lower-cased name has to end in a dot and one of the extensions.
\<close>

definition file_allowed :: "upload option \<Rightarrow> bool" where
  "file_allowed r =
     (case r of
        None \<Rightarrow> True
      | Some f \<Rightarrow>
          if filename f = [] then True
          else list_ex (\<lambda>x. endswith (lower (filename f)) (CHR ''.'' # x))
                 [''jpg'', ''jpeg'', ''png'', ''pdf''])"

text \<open>
  The characters of a string: in UTF-8 a character is a byte that is no continuation
  byte (\<open>10xxxxxx\<close>) together with the continuation bytes that follow it. \<open>len\<close>
  counts characters.
\<close>

definition is_continuation :: "char \<Rightarrow> bool" where
  "is_continuation c \<longleftrightarrow> digit7 c \<and> \<not> digit6 c"

fun utf8_chars :: "string \<Rightarrow> string list" where
  "utf8_chars [] = []"
| "utf8_chars (c # cs) =
     (case utf8_chars cs of
        [] \<Rightarrow> [[c]]
      | ch # chs \<Rightarrow>
          if ch \<noteq> [] \<and> is_continuation (hd ch) then (c # ch) # chs else [c] # ch # chs)"

definition len :: "string \<Rightarrow> nat" where
  "len s = length (utf8_chars s)"

text \<open>
  The characters for which \<open>str.isspace()\<close> holds, which are those that
  \<open>str.strip()\<close> strips: the ten of ASCII, U+0085, U+00A0, U+1680, U+2000 to U+200A,
  U+2028, U+2029, U+202F, U+205F and U+3000, each as its bytes.
\<close>

definition unicode_space :: "string \<Rightarrow> bool" where
  "unicode_space ch \<longleftrightarrow>
     ch \<in> set [[CHR 0x09], [CHR 0x0A], [CHR 0x0B], [CHR 0x0C], [CHR 0x0D],
                [CHR 0x1C], [CHR 0x1D], [CHR 0x1E], [CHR 0x1F], [CHR 0x20],
                [CHR 0xC2, CHR 0x85], [CHR 0xC2, CHR 0xA0], [CHR 0xE1, CHR 0x9A, CHR 0x80],
                [CHR 0xE2, CHR 0x80, CHR 0x80], [CHR 0xE2, CHR 0x80, CHR 0x81],
                [CHR 0xE2, CHR 0x80, CHR 0x82], [CHR 0xE2, CHR 0x80, CHR 0x83],
                [CHR 0xE2, CHR 0x80, CHR 0x84], [CHR 0xE2, CHR 0x80, CHR 0x85],
                [CHR 0xE2, CHR 0x80, CHR 0x86], [CHR 0xE2, CHR 0x80, CHR 0x87],
                [CHR 0xE2, CHR 0x80, CHR 0x88], [CHR 0xE2, CHR 0x80, CHR 0x89],
                [CHR 0xE2, CHR 0x80, CHR 0x8A], [CHR 0xE2, CHR 0x80, CHR 0xA8],
                [CHR 0xE2, CHR 0x80, CHR 0xA9], [CHR 0xE2, CHR 0x80, CHR 0xAF],
                [CHR 0xE2, CHR 0x81, CHR 0x9F], [CHR 0xE3, CHR 0x80, CHR 0x80]]"

text \<open>\<open>s.strip()\<close> is empty: every character of \<open>s\<close> is white space.\<close>

definition blank :: "string \<Rightarrow> bool" where
  "blank s \<longleftrightarrow> list_all unicode_space (utf8_chars s)"

text \<open>
  The validators of the fields, in the order of the class: \<open>DataRequired\<close> wants a
  truthy value (for a string, one that is not blank), \<open>NumberRange(min=0.01)\<close> and
  \<open>Length(max=...)\<close> bound it, and a \<open>SelectField\<close> accepts one of its choices
  only. \<open>choices\<close> are the ids of the user's categories, which the routes put into
  the form.
\<close>

definition validate :: "int list \<Rightarrow> transaction_form \<Rightarrow> bool" where
  "validate choices form \<longleftrightarrow>
     (case form_amount form of None \<Rightarrow> False | Some a \<Rightarrow> a \<noteq> 0 \<and> 1 / 100 \<le> a)
     \<and> \<not> blank (form_description form)
     \<and> len (form_description form) \<le> 200
     \<and> form_transaction_type form \<in> set [''income'', ''expense'']
     \<and> (case form_category_id form of None \<Rightarrow> False | Some i \<Rightarrow> i \<in> set choices)
     \<and> form_date form \<noteq> None
     \<and> file_allowed (form_receipt form)
     \<and> len (form_notes form) \<le> 500"

text \<open>\<open>form.validate_on_submit()\<close>: a submitted form that validates.\<close>

definition validate_on_submit :: "int list \<Rightarrow> request \<Rightarrow> bool" where
  "validate_on_submit choices req = (case req of GET \<Rightarrow> False | POST form \<Rightarrow> validate choices form)"

section \<open>The routes on transactions and receipts\<close>

text \<open>
  The state the routes act on: the two tables and the upload folder's file system.
\<close>

record app_state =
  db_transactions :: "transaction list"
  db_categories :: "category list"
  disk :: filesystem

text \<open>
  What a route answers: the 404 of \<open>first_or_404\<close>, the 500 that Flask makes of an
  exception no handler catches, a redirect to an endpoint after a flashed message, a
  rendered template, or \<open>send_file\<close> with its download name.
\<close>

datatype response =
    Not_found_404
  | Internal_server_error_500
  | Redirect string string
  | Render_template string
  | Send_file string string

text \<open>
  \<open>Transaction.query.filter_by(id=transaction_id, user_id=current_user.id).first_or_404()\<close>
  on SQLite, the database of the default \<open>DATABASE_URL\<close>. The id comes from the URL,
  where \<open><int:transaction_id>\<close> accepts any run of digits; binding an integer that
  does not fit 64 bits raises \<open>OverflowError\<close>. The user's id is that of a stored
  row. Otherwise the result is the first row with that id and that owner, or \<open>None\<close>
  where the route aborts with 404.
\<close>

datatype db_error = OverflowError

definition sqlite_integer :: "int \<Rightarrow> bool" where
  "sqlite_integer i \<longleftrightarrow> - (2 ^ 63) \<le> i \<and> i < 2 ^ 63"

definition first_or_404 :: "int \<Rightarrow> int \<Rightarrow> transaction list \<Rightarrow> db_error + transaction option" where
  "first_or_404 tid u rows =
     (if sqlite_integer tid then Inr (find (\<lambda>t. txn_id t = tid \<and> user_id t = u) rows)
      else Inl OverflowError)"

text \<open>
  \<open>Category.query.filter_by(user_id=current_user.id).all()\<close>, as the list of ids that
  becomes \<open>form.category_id.choices\<close>.
\<close>

definition category_choices :: "int \<Rightarrow> category list \<Rightarrow> int list" where
  "category_choices u cats = map cat_id (filter (\<lambda>c. cat_user_id c = u) cats)"

text \<open>
  \<open>db.session.commit()\<close> after the attributes of a row were set, and after
  \<open>db.session.delete(row)\<close>: the row is found by its primary key.
\<close>

definition update_row :: "transaction \<Rightarrow> transaction list \<Rightarrow> transaction list" where
  "update_row t' rows = map (\<lambda>t. if txn_id t = txn_id t' then t' else t) rows"

definition delete_row :: "transaction \<Rightarrow> transaction list \<Rightarrow> transaction list" where
  "delete_row t' rows = filter (\<lambda>t. txn_id t \<noteq> txn_id t') rows"

text \<open>
  \<open>form.category_id.data if form.category_id.data else None\<close>: 0 is falsy.
\<close>

definition category_or_none :: "int option \<Rightarrow> int option" where
  "category_or_none c = (case c of None \<Rightarrow> None | Some i \<Rightarrow> if i \<noteq> 0 then Some i else None)"

text \<open>
  The block \<open># Update transaction fields\<close> of \<open>edit_transaction\<close>. It runs after
  validation only, where \<open>DataRequired\<close> has made sure that the amount and the date
  are not \<open>None\<close>.
\<close>

definition update_fields :: "transaction_form \<Rightarrow> transaction \<Rightarrow> transaction" where
  "update_fields form txn =
     txn\<lparr>amount := the (form_amount form),
         description := form_description form,
         transaction_type := form_transaction_type form,
         date := the (form_date form),
         category_id := category_or_none (form_category_id form),
         txn_notes := form_notes form\<rparr>"

text \<open>
  The block \<open># Delete old receipt if exists\<close> of \<open>edit_transaction\<close>: the file
  \<open>UPLOAD_FOLDER/user/old name\<close> is removed where the row has a name and the file is
  there.
\<close>

definition delete_old_receipt :: "string \<Rightarrow> int \<Rightarrow> transaction \<Rightarrow> filesystem \<Rightarrow> filesystem" where
  "delete_old_receipt folder u txn fs =
     (case receipt_filename txn of
        None \<Rightarrow> fs
      | Some old \<Rightarrow>
          if old = [] then fs else remove_if_exists (path_join folder [str u, old]) fs)"

text \<open>
  \<open>edit_transaction(transaction_id)\<close> for the logged-in user \<open>u\<close>.
\<close>

definition edit_transaction :: "library \<Rightarrow> string \<Rightarrow> string \<Rightarrow> request \<Rightarrow> int \<Rightarrow> int \<Rightarrow> app_state \<Rightarrow> response \<times> app_state" where
  "edit_transaction lib folder token req tid u st =
     (case first_or_404 tid u (db_transactions st) of
        Inl e \<Rightarrow> (Internal_server_error_500, st)
      | Inr None \<Rightarrow> (Not_found_404, st)
      | Inr (Some txn) \<Rightarrow>
          (case req of
             GET \<Rightarrow> (Render_template ''edit_transaction.html'', st)
           | POST form \<Rightarrow>
               if validate_on_submit (category_choices u (db_categories st)) req then
                 (let (txn1, fs1) =
                        (if upload_present (form_receipt form) then
                           (let fs0 = delete_old_receipt folder u txn (disk st);
                                (new_name, fs') = save_receipt_file lib folder token (form_receipt form) u fs0
                            in (txn\<lparr>receipt_filename := new_name\<rparr>, fs'))
                         else (txn, disk st));
                      txn2 = update_fields form txn1
                  in (Redirect ''main.transactions'' ''Transaction updated successfully!'',
                      st\<lparr>db_transactions := update_row txn2 (db_transactions st), disk := fs1\<rparr>))
               else (Render_template ''edit_transaction.html'', st)))"

text \<open>
  \<open>delete_transaction(transaction_id)\<close> for the logged-in user \<open>u\<close>. With a name
  on the row it removes \<open>UPLOAD_FOLDER/user/name\<close> and
  \<open>UPLOAD_FOLDER/user/thumbnails/name\<close>, each where it is there.
\<close>

definition delete_receipt_files :: "string \<Rightarrow> int \<Rightarrow> transaction \<Rightarrow> filesystem \<Rightarrow> filesystem" where
  "delete_receipt_files folder u txn fs =
     (case receipt_filename txn of
        None \<Rightarrow> fs
      | Some name \<Rightarrow>
          if name = [] then fs
          else
            (let file_path = path_join folder [str u, name];
                 fs1 = remove_if_exists file_path fs;
                 thumb_path = path_join folder [str u, ''thumbnails'', name]
             in remove_if_exists thumb_path fs1))"

definition delete_transaction :: "string \<Rightarrow> int \<Rightarrow> int \<Rightarrow> app_state \<Rightarrow> response \<times> app_state" where
  "delete_transaction folder tid u st =
     (case first_or_404 tid u (db_transactions st) of
        Inl e \<Rightarrow> (Internal_server_error_500, st)
      | Inr None \<Rightarrow> (Not_found_404, st)
      | Inr (Some txn) \<Rightarrow>
          (Redirect ''main.transactions'' ''Transaction deleted successfully!'',
           st\<lparr>db_transactions := delete_row txn (db_transactions st),
              disk := delete_receipt_files folder u txn (disk st)\<rparr>))"

text \<open>
  \<open>str(transaction.date)\<close> in the download name: the ISO form of a date.
\<close>

definition zfill :: "nat \<Rightarrow> string \<Rightarrow> string" where
  "zfill n s = replicate (n - length s) CHR ''0'' @ s"

definition isoformat :: "date \<Rightarrow> string" where
  "isoformat d = zfill 4 (str (year d)) @ ''-'' @ zfill 2 (str (month d)) @ ''-'' @ zfill 2 (str (day d))"

text \<open>\<open>download_receipt(transaction_id)\<close> for the logged-in user \<open>u\<close>; it reads only.\<close>

definition download_receipt :: "string \<Rightarrow> int \<Rightarrow> int \<Rightarrow> app_state \<Rightarrow> response" where
  "download_receipt folder tid u st =
     (case first_or_404 tid u (db_transactions st) of
        Inl e \<Rightarrow> Internal_server_error_500
      | Inr None \<Rightarrow> Not_found_404
      | Inr (Some txn) \<Rightarrow>
          (case receipt_filename txn of
             None \<Rightarrow> Redirect ''main.transactions'' ''No receipt found for this transaction.''
           | Some name \<Rightarrow>
               if name = []
               then Redirect ''main.transactions'' ''No receipt found for this transaction.''
               else
                 (let file_path = path_join folder [str u, name] in
                  if file_path \<notin> dom (files (disk st))
                  then Redirect ''main.transactions'' ''Receipt file not found.''
                  else Send_file file_path
                         (''receipt_'' @ description txn @ ''_'' @ isoformat (date txn) @ ''.''
                            @ after_last_dot name))))"


section \<open>Notions of the statements and concrete inputs\<close>

text \<open>
  Deriving a thumbnail fails where something raises inside \<open>create_thumbnail\<close>: the
  stored bytes do not decode as an image, the size computation divides by zero,
  \<open>os.makedirs\<close> raises or \<open>img.save\<close> raises.
\<close>

definition thumbnail_fails :: "library \<Rightarrow> file_data \<Rightarrow> bool" where
  "thumbnail_fails lib d =
     (case d of
        Octets s \<Rightarrow> True
      | Picture w h \<Rightarrow>
          thumbnail_size (tie_to_ceiling lib) (200, 200) (w, h) = None
          \<or> thumb_io lib \<noteq> Thumbnail_saved)"

text \<open>
  Two runs of the libraries: one in which nothing raises, and one in which
  \<open>img.save\<close> raises before it has written a byte, as it does for an RGBA image under
  a name ending in .jpg.
\<close>

definition plain_library :: library where
  "plain_library = \<lparr>nfkd = (\<lambda>s. s), tie_to_ceiling = False, thumb_io = Thumbnail_saved\<rparr>"

definition unsavable_library :: library where
  "unsavable_library = plain_library\<lparr>thumb_io := Save_raises (Some [])\<rparr>"

text \<open>
  The categories after two users have registered, so that each name occurs twice, and the
  rows of the scenario, whose expenses are on Food & Dining and Transportation of user 1,
  together with an expense of user 2 on the Food & Dining of user 2.
\<close>

definition two_user_categories :: "category list" where
  "two_user_categories = register_categories 2 9 (register_categories 1 1 [])"

definition two_user_rows :: "transaction list" where
  "two_user_rows =
     scenario_rows @ [(mk_txn 9 30 ''expense'' 2024 1 20 (Some 9))\<lparr>user_id := 2\<rparr>]"

text \<open>An upload folder in which nothing has been stored yet.\<close>

definition empty_disk :: filesystem where
  "empty_disk = \<lparr>files = Map.empty, dirs = {}\<rparr>"

text \<open>An upload named like a JPEG whose bytes are no image.\<close>

definition damaged_scan :: upload where
  "damaged_scan = \<lparr>filename = ''scan.jpg'', data = Octets ''not an image''\<rparr>"

text \<open>
  A photo of 1000 by 500 pixels, a PDF, and an image of 1000 by 500 pixels sent under the
  name shot.jpg.
\<close>

definition photo_upload :: upload where
  "photo_upload = \<lparr>filename = ''receipt.png'', data = Picture 1000 500\<rparr>"

definition pdf_upload :: upload where
  "pdf_upload = \<lparr>filename = ''invoice.pdf'', data = Octets ''%PDF-1.4''\<rparr>"

definition shot_upload :: upload where
  "shot_upload = \<lparr>filename = ''shot.jpg'', data = Picture 1000 500\<rparr>"

text \<open>
  A state with two users. User 1 owns row 2, whose receipt is the photo as
  \<open>save_receipt_file\<close> stored it with the token abcd1234; user 2 owns row 7.
\<close>

definition photo_disk :: filesystem where
  "photo_disk =
     \<lparr>files = [''/srv/receipts/1/1_abcd1234.png'' \<mapsto> Picture 1000 500,
               ''/srv/receipts/1/thumbnails/1_abcd1234_thumb.png'' \<mapsto> Picture 200 100],
      dirs = {''/srv/receipts/1/thumbnails'', ''/srv/receipts/1''}\<rparr>"

definition receipt_row :: transaction where
  "receipt_row = (mk_txn 2 450 ''expense'' 2024 1 10 (Some 1))\<lparr>receipt_filename := Some ''1_abcd1234.png''\<rparr>"

definition other_row :: transaction where
  "other_row = (mk_txn 7 99 ''expense'' 2024 1 11 None)\<lparr>user_id := 2\<rparr>"

definition shared_state :: app_state where
  "shared_state =
     \<lparr>db_transactions = [receipt_row, other_row], db_categories = scenario_categories,
      disk = photo_disk\<rparr>"

text \<open>A valid form without a file, and the same form with a new photo.\<close>

definition edit_form :: transaction_form where
  "edit_form =
     \<lparr>form_amount = Some 500, form_description = ''Groceries'', form_transaction_type = ''expense'',
      form_category_id = Some 1, form_date = Some \<lparr>year = 2024, month = 1, day = 12\<rparr>,
      form_receipt = None, form_notes = []\<rparr>"

definition new_photo :: upload where
  "new_photo = \<lparr>filename = ''new.png'', data = Picture 120 80\<rparr>"

definition replace_form :: transaction_form where
  "replace_form = edit_form\<lparr>form_receipt := Some new_photo\<rparr>"

section \<open>Properties of the aggregation\<close>

lemma sum_list_filter_mset:
  "sum_list (map f (filter P xs)) = sum_mset (image_mset f (filter_mset P (mset xs)))"
  by (metis mset_filter mset_map sum_mset_sum_list)

lemma income_minus_expense_signed:
  "sum_list (map amount (filter (\<lambda>t. transaction_type t = ''income'') xs))
     - sum_list (map amount (filter (\<lambda>t. transaction_type t = ''expense'') xs))
   = sum_list (map signed_amount xs)"
  by (induction xs) (auto simp: signed_amount_def)

lemma get_balance_signed:
  "get_balance u rows = sum_list (map signed_amount (user_transactions u rows))"
  by (simp add: get_balance_def income_minus_expense_signed)

lemma or_zero_func_sum [simp]: "or_zero (func_sum xs) = sum_list xs"
  by (simp add: or_zero_def func_sum_def)

lemma monthly_income_sum:
  "monthly_income u m y rows =
     sum_list (map amount (filter (\<lambda>t. user_id t = u \<and> transaction_type t = ''income''
        \<and> month (date t) = m \<and> year (date t) = y) rows))"
  by (simp add: monthly_income_def filter_by_user_type_def filter_month_def filter_year_def conj_ac)

lemma monthly_expenses_sum:
  "monthly_expenses u m y rows =
     sum_list (map amount (filter (\<lambda>t. user_id t = u \<and> transaction_type t = ''expense''
        \<and> month (date t) = m \<and> year (date t) = y) rows))"
  by (simp add: monthly_expenses_def filter_by_user_type_def filter_month_def filter_year_def conj_ac)

lemma get_balance_date_update:
  "get_balance u (map (\<lambda>t. t\<lparr>date := d t\<rparr>) rows) = get_balance u rows"
  unfolding get_balance_signed user_transactions_def
  by (induction rows) (simp_all add: signed_amount_def)

text \<open>
  Claim C1. The balance of a user is the signed total of that user's rows: the sum of the
  income amounts minus the sum of the expense amounts, over all rows of the user whatever
  their dates. It is 0 for a user with no rows, and it does not depend on the order in
  which the rows were inserted.
\<close>

theorem get_balance_signed_total:
  "get_balance u rows = sum_list (map signed_amount (filter (\<lambda>t. user_id t = u) rows))
   \<and> get_balance u rows =
       sum_list (map amount (filter (\<lambda>t. user_id t = u \<and> transaction_type t = ''income'') rows))
       - sum_list (map amount (filter (\<lambda>t. user_id t = u \<and> transaction_type t = ''expense'') rows))
   \<and> get_balance u (map (\<lambda>t. t\<lparr>date := d t\<rparr>) rows) = get_balance u rows
   \<and> ((\<forall>t \<in> set rows. user_id t \<noteq> u) \<longrightarrow> get_balance u rows = 0)
   \<and> (mset rows = mset rows' \<longrightarrow> get_balance u rows = get_balance u rows')"
proof (intro conjI impI)
  show "get_balance u rows = sum_list (map signed_amount (filter (\<lambda>t. user_id t = u) rows))"
    by (simp add: get_balance_signed user_transactions_def)
  show "get_balance u rows =
       sum_list (map amount (filter (\<lambda>t. user_id t = u \<and> transaction_type t = ''income'') rows))
       - sum_list (map amount (filter (\<lambda>t. user_id t = u \<and> transaction_type t = ''expense'') rows))"
    by (simp add: get_balance_def user_transactions_def conj_commute)
  show "get_balance u (map (\<lambda>t. t\<lparr>date := d t\<rparr>) rows) = get_balance u rows"
    by (rule get_balance_date_update)
next
  assume "\<forall>t \<in> set rows. user_id t \<noteq> u"
  then have "user_transactions u rows = []"
    by (simp add: user_transactions_def filter_empty_conv)
  then show "get_balance u rows = 0"
    by (simp add: get_balance_def)
next
  assume "mset rows = mset rows'"
  then show "get_balance u rows = get_balance u rows'"
    by (simp add: get_balance_signed user_transactions_def sum_list_filter_mset)
qed

text \<open>
  The scenario of the specification: the balance is 2470 in either insertion order, and a
  user without rows has balance 0.
\<close>

theorem get_balance_signed_total_witness:
  "get_balance 1 scenario_rows = 2470
   \<and> get_balance 1 (rev scenario_rows) = 2470
   \<and> get_balance 2 scenario_rows = 0"
proof -
  have a: "get_balance 1 scenario_rows = 2470"
    by (simp add: get_balance_def user_transactions_def scenario_rows_def mk_txn_def)
  have p: "mset scenario_rows = mset (rev scenario_rows)" by simp
  have n: "\<forall>t \<in> set scenario_rows. user_id t \<noteq> 2"
    by (simp add: scenario_rows_def mk_txn_def)
  have b: "get_balance 1 (rev scenario_rows) = get_balance 1 scenario_rows"
    using get_balance_signed_total [of 1 scenario_rows date "rev scenario_rows"] p by metis
  have c: "get_balance 2 scenario_rows = 0"
    using get_balance_signed_total [of 2 scenario_rows date scenario_rows] n by metis
  from a b c show ?thesis by simp
qed

text \<open>
  Claim C2. The monthly summary of user \<open>u\<close> for month \<open>m\<close> of year \<open>y\<close> is the
  pair of the sums, by type, of the amounts of the rows of \<open>u\<close> whose \<open>date\<close> has
  exactly that month and year. A row dated in another month or year changes nothing, the
  creation timestamps play no part, and with no matching row the result is (0, 0).
\<close>

theorem monthly_summary_by_effective_date:
  "monthly_summary u m y rows =
     (sum_list (map amount (filter (\<lambda>t. user_id t = u \<and> transaction_type t = ''income''
         \<and> month (date t) = m \<and> year (date t) = y) rows)),
      sum_list (map amount (filter (\<lambda>t. user_id t = u \<and> transaction_type t = ''expense''
         \<and> month (date t) = m \<and> year (date t) = y) rows)))
   \<and> (\<not> (month (date t) = m \<and> year (date t) = y) \<longrightarrow>
        monthly_summary u m y (xs @ t # ys) = monthly_summary u m y (xs @ ys))
   \<and> monthly_summary u m y (map (\<lambda>t. t\<lparr>created_at := c t\<rparr>) rows) = monthly_summary u m y rows
   \<and> ((\<forall>t \<in> set rows. \<not> (user_id t = u \<and> month (date t) = m \<and> year (date t) = y)) \<longrightarrow>
        monthly_summary u m y rows = (0, 0))"
proof (intro conjI impI)
  show "monthly_summary u m y rows =
     (sum_list (map amount (filter (\<lambda>t. user_id t = u \<and> transaction_type t = ''income''
         \<and> month (date t) = m \<and> year (date t) = y) rows)),
      sum_list (map amount (filter (\<lambda>t. user_id t = u \<and> transaction_type t = ''expense''
         \<and> month (date t) = m \<and> year (date t) = y) rows)))"
    by (simp add: monthly_summary_def monthly_income_sum monthly_expenses_sum )
  show "monthly_summary u m y (map (\<lambda>t. t\<lparr>created_at := c t\<rparr>) rows) = monthly_summary u m y rows"
    by (simp add: monthly_summary_def monthly_income_sum monthly_expenses_sum filter_map comp_def)
next
  assume "\<not> (month (date t) = m \<and> year (date t) = y)"
  then show "monthly_summary u m y (xs @ t # ys) = monthly_summary u m y (xs @ ys)"
    by (auto simp: monthly_summary_def monthly_income_sum monthly_expenses_sum )
next
  assume "\<forall>t \<in> set rows. \<not> (user_id t = u \<and> month (date t) = m \<and> year (date t) = y)"
  then have "filter (\<lambda>t. user_id t = u \<and> transaction_type t = ty
         \<and> month (date t) = m \<and> year (date t) = y) rows = []" for ty
    by (auto simp: filter_empty_conv)
  then show "monthly_summary u m y rows = (0, 0)"
    by (simp add: monthly_summary_def monthly_income_sum monthly_expenses_sum )
qed


text \<open>
  The scenario: the February row does not count for January, and March has no rows.
\<close>

theorem monthly_summary_by_effective_date_witness:
  "monthly_summary 1 1 2024 scenario_rows = (3000, 450)
   \<and> monthly_summary 1 1 2024 (butlast scenario_rows) = (3000, 450)
   \<and> monthly_summary 1 2 2024 scenario_rows = (0, 80)
   \<and> monthly_summary 1 3 2024 scenario_rows = (0, 0)"
proof -
  have sp: "scenario_rows = butlast scenario_rows @ last scenario_rows # []"
    by (simp add: scenario_rows_def)
  have feb: "\<not> (month (date (last scenario_rows)) = 1 \<and> year (date (last scenario_rows)) = 2024)"
    by (simp add: scenario_rows_def mk_txn_def)
  have none: "\<forall>t \<in> set scenario_rows. \<not> (user_id t = 1 \<and> month (date t) = 3 \<and> year (date t) = 2024)"
    by (simp add: scenario_rows_def mk_txn_def)
  have a: "monthly_summary 1 1 2024 (butlast scenario_rows) = (3000, 450)"
    by (simp add: monthly_summary_def monthly_income_def monthly_expenses_def
        filter_by_user_type_def filter_month_def filter_year_def func_sum_def or_zero_def
        scenario_rows_def mk_txn_def)
  have "monthly_summary 1 1 2024 (butlast scenario_rows @ last scenario_rows # [])
          = monthly_summary 1 1 2024 (butlast scenario_rows @ [])"
    using monthly_summary_by_effective_date
      [of 1 1 2024 scenario_rows "last scenario_rows" "butlast scenario_rows" "[]" created_at] feb
    by metis
  with sp a have b: "monthly_summary 1 1 2024 scenario_rows = (3000, 450)" by simp
  have c: "monthly_summary 1 2 2024 scenario_rows = (0, 80)"
    by (simp add: monthly_summary_def monthly_income_def monthly_expenses_def
        filter_by_user_type_def filter_month_def filter_year_def func_sum_def or_zero_def
        scenario_rows_def mk_txn_def)
  have d: "monthly_summary 1 3 2024 scenario_rows = (0, 0)"
    using monthly_summary_by_effective_date
      [of 1 3 2024 scenario_rows "last scenario_rows" "[]" "[]" created_at] none
    by metis
  from a b c d show ?thesis by simp
qed


section \<open>The category breakdown\<close>

lemma set_join_transaction:
  "set (join_transaction cats rows) =
     {(c, t). c \<in> set cats \<and> t \<in> set rows \<and> category_id t = Some (cat_id c)}"
  by (auto simp: join_transaction_def)

lemma join_transaction_uncategorised:
  "category_id t = None \<Longrightarrow> join_transaction cats (xs @ t # ys) = join_transaction cats (xs @ ys)"
  by (simp add: join_transaction_def)

lemma distinct_group_by_name: "distinct (map fst (group_by_name joined))"
  by (simp add: group_by_name_def comp_def)

lemma set_group_by_name:
  "set (group_by_name joined) =
     (\<lambda>n. (n, sum_list (map (\<lambda>(c, t). amount t) (filter (\<lambda>(c, t). cat_name c = n) joined))))
        ` (\<lambda>(c, t). cat_name c) ` set joined"
  by (simp add: group_by_name_def)

lemma length_group_by_name:
  "length (group_by_name joined) = card ((\<lambda>(c, t). cat_name c) ` set joined)"
  by (simp add: group_by_name_def length_remdups_card_conv)

lemma names_of_qualifying_join:
  "(\<lambda>(c, t). cat_name c) ` set (filter (\<lambda>(c, t). qualifying_expense u m y t) (join_transaction cats rows))
     = cat_name ` spending_categories cats u m y rows"
  by (force simp: set_join_transaction spending_categories_def image_iff)

text \<open>A sum over the rows that satisfy one of two conditions that exclude each other.\<close>

lemma sum_list_filter_disj:
  assumes "\<forall>x \<in> set xs. \<not> (A x \<and> B x)"
  shows "sum_list (map f (filter (\<lambda>x. A x \<or> B x) xs))
           = sum_list (map f (filter A xs)) + (sum_list (map f (filter B xs)) :: rat)"
  using assms by (induction xs) auto

text \<open>
  The sum of a group of the joined rows, read off the transaction table: with the ids of
  the categories as primary key, a row joins with one category at most.
\<close>

lemma join_group_sum:
  assumes "distinct (map cat_id cats)"
  shows "sum_list (map (\<lambda>(c, t). amount t)
           (filter (\<lambda>(c, t). cat_name c = n \<and> Q t) (join_transaction cats rows)))
       = sum_list (map amount
           (filter (\<lambda>t. Q t \<and> (\<exists>c \<in> set cats. cat_name c = n \<and> category_id t = Some (cat_id c))) rows))"
  using assms
proof (induction cats)
  case Nil
  show ?case by (simp add: join_transaction_def)
next
  case (Cons c cs)
  let ?A = "\<lambda>t. Q t \<and> cat_name c = n \<and> category_id t = Some (cat_id c)"
  let ?B = "\<lambda>t. Q t \<and> (\<exists>c' \<in> set cs. cat_name c' = n \<and> category_id t = Some (cat_id c'))"
  from Cons.prems have fresh: "cat_id c \<notin> cat_id ` set cs" and d: "distinct (map cat_id cs)"
    by simp_all
  have excl: "\<forall>t \<in> set rows. \<not> (?A t \<and> ?B t)"
  proof (intro ballI notI)
    fix t
    assume "?A t \<and> ?B t"
    then obtain c' where c': "c' \<in> set cs" "category_id t = Some (cat_id c')"
      and "category_id t = Some (cat_id c)" by blast
    then have "cat_id c = cat_id c'" by simp
    with c'(1) fresh show False by (metis imageI)
  qed
  have j: "join_transaction (c # cs) rows
      = map (\<lambda>t. (c, t)) (filter (\<lambda>t. category_id t = Some (cat_id c)) rows) @ join_transaction cs rows"
    by (simp add: join_transaction_def)
  have head: "sum_list (map (\<lambda>(c, t). amount t)
           (filter (\<lambda>(c, t). cat_name c = n \<and> Q t)
              (map (\<lambda>t. (c, t)) (filter (\<lambda>t. category_id t = Some (cat_id c)) rows))))
       = sum_list (map amount (filter ?A rows))"
    by (induction rows) auto
  have "sum_list (map amount
           (filter (\<lambda>t. Q t \<and> (\<exists>c' \<in> set (c # cs). cat_name c' = n \<and> category_id t = Some (cat_id c'))) rows))
       = sum_list (map amount (filter (\<lambda>t. ?A t \<or> ?B t) rows))"
    by (rule arg_cong [where f = "\<lambda>p. sum_list (map amount (filter p rows))"]) auto
  also have "\<dots> = sum_list (map amount (filter ?A rows)) + sum_list (map amount (filter ?B rows))"
    using excl by (rule sum_list_filter_disj)
  finally show ?case
    using Cons.IH [OF d] head by (simp add: j)
qed

lemma category_expenses_set:
  assumes "distinct (map cat_id cats)"
  shows "set (category_expenses cats u m y rows) =
     (\<lambda>n. (n, category_total cats u m y rows n)) ` cat_name ` spending_categories cats u m y rows"
proof -
  have "sum_list (map (\<lambda>(c, t). amount t)
           (filter (\<lambda>(c, t). cat_name c = n)
              (filter (\<lambda>(c, t). qualifying_expense u m y t) (join_transaction cats rows))))
       = category_total cats u m y rows n" for n
  proof -
    have "filter (\<lambda>(c, t). cat_name c = n)
              (filter (\<lambda>(c, t). qualifying_expense u m y t) (join_transaction cats rows))
        = filter (\<lambda>(c, t). cat_name c = n \<and> qualifying_expense u m y t) (join_transaction cats rows)"
      by (simp add: case_prod_unfold conj_commute)
    then show ?thesis
      using join_group_sum [OF assms, of n "qualifying_expense u m y" rows]
      by (simp add: category_total_def)
  qed
  then show ?thesis
    unfolding category_expenses_def set_group_by_name names_of_qualifying_join by simp
qed

lemma category_expenses_uncategorised:
  "category_id t = None \<Longrightarrow>
     category_expenses cats u m y (xs @ t # ys) = category_expenses cats u m y (xs @ ys)"
  by (simp add: category_expenses_def join_transaction_uncategorised)

lemma monthly_expenses_insert:
  "qualifying_expense u m y t \<Longrightarrow>
     monthly_expenses u m y (xs @ t # ys) = amount t + monthly_expenses u m y (xs @ ys)"
  by (simp add: monthly_expenses_sum qualifying_expense_def)

lemma length_category_expenses:
  assumes "inj_on cat_name (spending_categories cats u m y rows)"
  shows "length (category_expenses cats u m y rows) = card (spending_categories cats u m y rows)"
  using assms
  unfolding category_expenses_def length_group_by_name names_of_qualifying_join
  by (rule card_image)

text \<open>
  With pairwise different names among the categories that have a qualifying expense, the
  total under a name is the total of the one category that bears it.
\<close>

lemma category_total_single:
  assumes "inj_on cat_name (spending_categories cats u m y rows)"
    and "c \<in> spending_categories cats u m y rows"
  shows "category_total cats u m y rows (cat_name c)
       = sum_list (map amount
           (filter (\<lambda>t. qualifying_expense u m y t \<and> category_id t = Some (cat_id c)) rows))"
proof -
  from assms(2) have c: "c \<in> set cats" by (simp add: spending_categories_def)
  have "(qualifying_expense u m y t
           \<and> (\<exists>c' \<in> set cats. cat_name c' = cat_name c \<and> category_id t = Some (cat_id c')))
        \<longleftrightarrow> (qualifying_expense u m y t \<and> category_id t = Some (cat_id c))"
    if t: "t \<in> set rows" for t
  proof
    assume a: "qualifying_expense u m y t
           \<and> (\<exists>c' \<in> set cats. cat_name c' = cat_name c \<and> category_id t = Some (cat_id c'))"
    then obtain c' where c': "c' \<in> set cats" "cat_name c' = cat_name c" "category_id t = Some (cat_id c')"
      by blast
    with a t have "c' \<in> spending_categories cats u m y rows"
      by (auto simp: spending_categories_def)
    with assms c'(2) have "c' = c" by (auto dest: inj_onD)
    with a c'(3) show "qualifying_expense u m y t \<and> category_id t = Some (cat_id c)" by simp
  next
    assume "qualifying_expense u m y t \<and> category_id t = Some (cat_id c)"
    with c show "qualifying_expense u m y t
           \<and> (\<exists>c' \<in> set cats. cat_name c' = cat_name c \<and> category_id t = Some (cat_id c'))"
      by blast
  qed
  then have "filter (\<lambda>t. qualifying_expense u m y t
           \<and> (\<exists>c' \<in> set cats. cat_name c' = cat_name c \<and> category_id t = Some (cat_id c'))) rows
      = filter (\<lambda>t. qualifying_expense u m y t \<and> category_id t = Some (cat_id c)) rows"
    by (intro filter_cong) simp_all
  then show ?thesis by (simp add: category_total_def)
qed

text \<open>
  The names are pairwise different among the categories with a qualifying expense in
  every state the routes produce: \<open>register\<close> seeds each user with eight different
  names, no route adds a category, and the forms offer a user's own categories only.
\<close>

lemma own_categories_distinct_names:
  assumes "distinct (map cat_name (filter (\<lambda>c. cat_user_id c = u) cats))"
    and "\<forall>t \<in> set rows. user_id t = u \<longrightarrow>
           (\<forall>c \<in> set cats. category_id t = Some (cat_id c) \<longrightarrow> cat_user_id c = u)"
  shows "inj_on cat_name (spending_categories cats u m y rows)"
proof -
  from assms(1) have "inj_on cat_name (set (filter (\<lambda>c. cat_user_id c = u) cats))"
    by (simp add: distinct_map)
  moreover have "spending_categories cats u m y rows \<subseteq> set (filter (\<lambda>c. cat_user_id c = u) cats)"
    using assms(2) by (auto simp: spending_categories_def qualifying_expense_def)
  ultimately show ?thesis by (rule inj_on_subset)
qed

text \<open>
  \<open>register\<close> keeps the names of every user's categories pairwise different: the
  new user gets eight different names, and the categories of the others stay.
\<close>

lemma register_categories_own_names:
  assumes "\<forall>c \<in> set cats. cat_user_id c \<noteq> uid"
  shows "distinct (map cat_name (filter (\<lambda>c. cat_user_id c = uid) (register_categories uid first_id cats)))"
proof -
  from assms have "filter (\<lambda>c. cat_user_id c = uid) cats = []"
    by (auto simp: filter_empty_conv)
  then show ?thesis
    by (simp add: register_categories_def default_categories_def)
qed

lemma register_categories_others:
  assumes "u \<noteq> uid"
  shows "filter (\<lambda>c. cat_user_id c = u) (register_categories uid first_id cats)
           = filter (\<lambda>c. cat_user_id c = u) cats"
  using assms by (simp add: register_categories_def default_categories_def)

text \<open>
  Claim C3. With the category ids as primary key, the breakdown lists every name once, and
  its pairs are exactly the names of the categories to which some expense of user \<open>u\<close>
  dated in the window refers, each with the total of such expenses on categories of that
  name. So a category without a qualifying expense gives no pair, and a row without a
  category gives none. Where those categories have pairwise different names, the pairs
  are as many as the categories, and each category has its pair with the sum of its own
  qualifying expenses; that is so in every state the routes produce (lemmas
  \<open>register_categories_own_names\<close> and \<open>own_categories_distinct_names\<close>), and it
  asks nothing of the categories of other users, who have the same names. A row without
  a category changes nothing in the breakdown, while its amount is part of the month's
  expense total.
\<close>

theorem category_expenses_breakdown:
  assumes "distinct (map cat_id cats)"
  shows "distinct (map fst (category_expenses cats u m y rows))
   \<and> set (category_expenses cats u m y rows) =
       (\<lambda>n. (n, category_total cats u m y rows n)) ` cat_name ` spending_categories cats u m y rows
   \<and> (inj_on cat_name (spending_categories cats u m y rows) \<longrightarrow>
        length (category_expenses cats u m y rows) = card (spending_categories cats u m y rows)
        \<and> (\<forall>c \<in> spending_categories cats u m y rows.
             (cat_name c,
              sum_list (map amount
                (filter (\<lambda>t. qualifying_expense u m y t \<and> category_id t = Some (cat_id c)) rows)))
             \<in> set (category_expenses cats u m y rows)))
   \<and> (category_id t = None \<longrightarrow>
        category_expenses cats u m y (xs @ t # ys) = category_expenses cats u m y (xs @ ys))
   \<and> (category_id t = None \<and> qualifying_expense u m y t \<longrightarrow>
        snd (monthly_summary u m y (xs @ t # ys)) = amount t + snd (monthly_summary u m y (xs @ ys)))"
proof (intro conjI impI ballI)
  show "distinct (map fst (category_expenses cats u m y rows))"
    by (simp add: category_expenses_def distinct_group_by_name)
  show "set (category_expenses cats u m y rows) =
       (\<lambda>n. (n, category_total cats u m y rows n)) ` cat_name ` spending_categories cats u m y rows"
    using assms by (rule category_expenses_set)
next
  assume "inj_on cat_name (spending_categories cats u m y rows)"
  then show "length (category_expenses cats u m y rows) = card (spending_categories cats u m y rows)"
    by (rule length_category_expenses)
next
  fix c
  assume inj: "inj_on cat_name (spending_categories cats u m y rows)"
    and c: "c \<in> spending_categories cats u m y rows"
  from c have "(cat_name c, category_total cats u m y rows (cat_name c))
      \<in> set (category_expenses cats u m y rows)"
    unfolding category_expenses_set [OF assms] by blast
  then show "(cat_name c,
              sum_list (map amount
                (filter (\<lambda>t. qualifying_expense u m y t \<and> category_id t = Some (cat_id c)) rows)))
             \<in> set (category_expenses cats u m y rows)"
    by (simp add: category_total_single [OF inj c])
next
  assume "category_id t = None"
  then show "category_expenses cats u m y (xs @ t # ys) = category_expenses cats u m y (xs @ ys)"
    by (rule category_expenses_uncategorised)
next
  assume "category_id t = None \<and> qualifying_expense u m y t"
  then show "snd (monthly_summary u m y (xs @ t # ys)) = amount t + snd (monthly_summary u m y (xs @ ys))"
    by (simp add: monthly_summary_def monthly_expenses_insert)
qed

lemmas eval_tables =
  two_user_categories_def two_user_rows_def register_categories_def default_categories_def
  scenario_rows_def mk_txn_def cash_expense_def

text \<open>
  Two registered users, so that every name occurs twice in the table. For user 1 in
  January 2024 the breakdown is Food & Dining with 450: one pair for the one category
  with an expense, nothing for Transportation, whose expense is of February, nothing of
  user 2, and nothing for the cash expense of 20, which the month's total of 470 includes.
\<close>

theorem category_expenses_breakdown_witness:
  "\<not> inj_on cat_name (set two_user_categories)
   \<and> category_expenses two_user_categories 1 1 2024 two_user_rows = [(''Food & Dining'', 450)]
   \<and> length (category_expenses two_user_categories 1 1 2024 two_user_rows)
       = card (spending_categories two_user_categories 1 1 2024 two_user_rows)
   \<and> category_total two_user_categories 1 1 2024 two_user_rows ''Food & Dining'' = 450
   \<and> category_expenses two_user_categories 1 1 2024 (two_user_rows @ [cash_expense])
       = [(''Food & Dining'', 450)]
   \<and> snd (monthly_summary 1 1 2024 (two_user_rows @ [cash_expense])) = 470"
proof -
  have pk: "distinct (map cat_id two_user_categories)"
    by (simp add: eval_tables)
  note inst = category_expenses_breakdown
    [OF pk, of 1 1 2024 two_user_rows cash_expense two_user_rows "[]"]
  have g: "\<not> inj_on cat_name (set two_user_categories)"
  proof
    assume "inj_on cat_name (set two_user_categories)"
    then have "distinct (map cat_name two_user_categories)"
      using pk by (simp add: distinct_map)
    then show False by (simp add: eval_tables)
  qed
  have a: "category_expenses two_user_categories 1 1 2024 two_user_rows = [(''Food & Dining'', 450)]"
    by (simp add: category_expenses_def group_by_name_def join_transaction_def
        qualifying_expense_def eval_tables)
  have own: "distinct (map cat_name (filter (\<lambda>c. cat_user_id c = 1) two_user_categories))"
    by (simp add: eval_tables)
  have ref: "\<forall>t \<in> set two_user_rows. user_id t = 1 \<longrightarrow>
           (\<forall>c \<in> set two_user_categories. category_id t = Some (cat_id c) \<longrightarrow> cat_user_id c = 1)"
    by (simp add: eval_tables)
  have inj: "inj_on cat_name (spending_categories two_user_categories 1 1 2024 two_user_rows)"
    using own ref by (rule own_categories_distinct_names)
  have none: "category_id cash_expense = None"
    by (simp add: cash_expense_def mk_txn_def)
  have q: "qualifying_expense 1 1 2024 cash_expense"
    by (simp add: cash_expense_def mk_txn_def qualifying_expense_def)
  have s: "snd (monthly_summary 1 1 2024 two_user_rows) = 450"
    by (simp add: monthly_summary_def monthly_income_def monthly_expenses_def
        filter_by_user_type_def filter_month_def filter_year_def func_sum_def or_zero_def
        eval_tables)
  have am: "amount cash_expense = 20"
    by (simp add: cash_expense_def mk_txn_def)
  note i2 = inst [THEN conjunct2, THEN conjunct1]
  note i3 = inst [THEN conjunct2, THEN conjunct2, THEN conjunct1, rule_format, OF inj, THEN conjunct1]
  note i4 = inst [THEN conjunct2, THEN conjunct2, THEN conjunct2, THEN conjunct1, rule_format, OF none]
  note i5 = inst [THEN conjunct2, THEN conjunct2, THEN conjunct2, THEN conjunct2, rule_format,
      OF conjI [OF none q]]
  have "(''Food & Dining'', 450) \<in> set (category_expenses two_user_categories 1 1 2024 two_user_rows)"
    unfolding a by (rule list.set_intros(1))
  then have "(''Food & Dining'', 450) \<in> (\<lambda>n. (n, category_total two_user_categories 1 1 2024 two_user_rows n))
         ` cat_name ` spending_categories two_user_categories 1 1 2024 two_user_rows"
    unfolding i2 .
  then obtain n where "(''Food & Dining'', 450) = (n, category_total two_user_categories 1 1 2024 two_user_rows n)"
    by (rule imageE)
  then have t: "category_total two_user_categories 1 1 2024 two_user_rows ''Food & Dining'' = 450"
    by (simp only: prod.inject)
  have c: "category_expenses two_user_categories 1 1 2024 (two_user_rows @ [cash_expense])
      = [(''Food & Dining'', 450)]"
    using i4 a by (simp only: append_Nil2)
  have d: "snd (monthly_summary 1 1 2024 (two_user_rows @ [cash_expense])) = 470"
    using i5 s am by (simp only: append_Nil2)
  from g a i3 t c d show ?thesis by (intro conjI)
qed

section \<open>Strings and paths\<close>

lemma digit_char_in: "digit_char d \<in> set ''0123456789''"
proof -
  have "d mod 10 < length ''0123456789''" by simp
  then show ?thesis unfolding digit_char_def by (rule nth_mem)
qed

lemma str_nat_nonempty: "str_nat n \<noteq> []"
  by (subst str_nat.simps) simp

lemma hd_str_nat: "hd (str_nat n) \<in> set ''0123456789''"
proof (induction n rule: str_nat.induct)
  case (1 n)
  show ?case
  proof (cases "n < 10")
    case True
    then have "str_nat n = [digit_char n]" by (subst str_nat.simps) simp
    then show ?thesis using digit_char_in [of n] by simp
  next
    case False
    then have "str_nat n = str_nat (n div 10) @ [digit_char (n mod 10)]"
      by (subst str_nat.simps) simp
    then have "hd (str_nat n) = hd (str_nat (n div 10))"
      by (simp add: str_nat_nonempty)
    with 1 False show ?thesis by simp
  qed
qed

lemma last_str_nat: "last (str_nat n) \<in> set ''0123456789''"
proof -
  have "last (str_nat n) = digit_char (n mod 10)"
    by (subst str_nat.simps) (simp add: digit_char_def)
  then show ?thesis using digit_char_in [of "n mod 10"] by simp
qed

lemma str_nonempty: "str i \<noteq> []"
  by (simp add: str_def str_nat_nonempty)

lemma hd_str: "hd (str i) \<in> set ''-0123456789''"
  using hd_str_nat [of "nat i"] by (auto simp: str_def)

lemma last_str: "last (str i) \<in> set ''0123456789''"
  using last_str_nat [of "nat i"] last_str_nat [of "nat (- i)"]
  by (simp add: str_def str_nat_nonempty)

lemma after_last_dot_split:
  assumes "CHR ''.'' \<in> set p"
  shows "p = take (length p - length (after_last_dot p) - 1) p @ CHR ''.'' # after_last_dot p"
proof -
  let ?e = "takeWhile (\<lambda>c. c \<noteq> CHR ''.'') (rev p)"
  let ?d = "dropWhile (\<lambda>c. c \<noteq> CHR ''.'') (rev p)"
  from assms have "?d \<noteq> []" by (auto simp: dropWhile_eq_Nil_conv)
  moreover have "hd ?d = CHR ''.''" using \<open>?d \<noteq> []\<close> hd_dropWhile [of "\<lambda>c. c \<noteq> CHR ''.''" "rev p"] by simp
  ultimately obtain r where d: "?d = CHR ''.'' # r" by (cases ?d) auto
  have "rev p = ?e @ ?d" by simp
  then have "rev p = ?e @ CHR ''.'' # r" using d by simp
  then have "p = rev r @ CHR ''.'' # rev ?e"
    by (metis rev_rev_ident rev_append rev.simps(2) append.assoc append_Cons append_Nil)
  then have p: "p = rev r @ CHR ''.'' # after_last_dot p" by (simp add: after_last_dot_def)
  then have "length p = length r + 1 + length (after_last_dot p)" 
    by (metis length_append length_Cons length_rev add.assoc add.commute Suc_eq_plus1 add_Suc_right)
  then have "take (length p - length (after_last_dot p) - 1) p = rev r"
    using p by (metis add_diff_cancel_right' append_eq_conv_conj length_rev)
  with p show ?thesis by simp
qed

lemma no_dot_after_last_dot: "CHR ''.'' \<notin> set (after_last_dot p)"
  by (auto simp: after_last_dot_def dest: set_takeWhileD)

lemma splitext_append: "splitext p = (a, b) \<Longrightarrow> a @ b = p"
  using after_last_dot_split [of p]
  by (auto simp: splitext_def Let_def split: if_splits)

lemma splitext_stem_nonempty: "splitext p = (a, b) \<Longrightarrow> p \<noteq> [] \<Longrightarrow> a \<noteq> []"
  by (auto simp: splitext_def Let_def split: if_splits dest: set_takeWhileD)

lemma path_join_append: "path_join (path_join a p) q = path_join a (p @ q)"
  by (simp add: path_join_def)

lemma join2_relative:
  "a \<noteq> [] \<Longrightarrow> last a \<noteq> CHR ''/'' \<Longrightarrow> b \<noteq> [] \<Longrightarrow> hd b \<noteq> CHR ''/'' \<Longrightarrow>
     join2 a b = a @ CHR ''/'' # b"
  by (simp add: join2_def)

lemma hd_str_not_slash: "hd (str u) \<noteq> CHR ''/''"
  using hd_str [of u] by auto

lemma last_str_not_slash: "last (str u) \<noteq> CHR ''/''"
  using last_str [of u] by auto

lemma user_dir_shape:
  "path_join folder [str u] \<noteq> [] \<and> last (path_join folder [str u]) \<noteq> CHR ''/''"
  using str_nonempty [of u] hd_str_not_slash [of u] last_str_not_slash [of u]
  by (simp add: path_join_def join2_def)

lemma path_join_user_file:
  assumes "name \<noteq> []" "hd name \<noteq> CHR ''/''"
  shows "path_join folder [str u, name] = path_join folder [str u] @ CHR ''/'' # name"
proof -
  have "path_join folder [str u, name] = join2 (path_join folder [str u]) name"
    by (simp add: path_join_def)
  also have "\<dots> = path_join folder [str u] @ CHR ''/'' # name"
    using user_dir_shape [of folder u] assms by (intro join2_relative) simp_all
  finally show ?thesis .
qed

lemma path_join_user_thumb:
  assumes "name \<noteq> []" "hd name \<noteq> CHR ''/''"
  shows "path_join folder [str u, ''thumbnails'', name]
           = path_join folder [str u] @ ''/thumbnails/'' @ name"
proof -
  have d: "path_join folder [str u, ''thumbnails''] = path_join folder [str u] @ ''/thumbnails''"
    using path_join_user_file [of "''thumbnails''" folder u] by simp
  have "path_join folder [str u, ''thumbnails'', name]
          = join2 (path_join folder [str u, ''thumbnails'']) name"
    by (simp add: path_join_def)
  also have "\<dots> = path_join folder [str u, ''thumbnails''] @ CHR ''/'' # name"
    using assms by (intro join2_relative) (simp_all add: d)
  finally show ?thesis by (simp add: d)
qed

lemma unique_name_shape:
  "unique_name u token ext \<noteq> [] \<and> hd (unique_name u token ext) \<in> set ''-0123456789''"
  using hd_str [of u] str_nonempty [of u] by (simp add: unique_name_def)

lemma thumb_name_shape:
  assumes "fname \<noteq> []"
  shows "thumb_name fname \<noteq> [] \<and> hd (thumb_name fname) = hd fname"
proof -
  obtain a b where s: "splitext fname = (a, b)" by (cases "splitext fname")
  from s assms have "a \<noteq> []" by (rule splitext_stem_nonempty)
  moreover from s have "a @ b = fname" by (rule splitext_append)
  ultimately show ?thesis using s by (auto simp: thumb_name_def)
qed

text \<open>A receipt and a thumbnail never share a path.\<close>

lemma receipt_path_neq_thumb_path:
  assumes "hd name \<in> set ''-0123456789''" "name \<noteq> []" "other \<noteq> []" "hd other \<noteq> CHR ''/''"
  shows "path_join folder [str u, name] \<noteq> path_join folder [str u, ''thumbnails'', other]"
proof -
  from assms have "hd name \<noteq> CHR ''/''" by auto
  with assms have a: "path_join folder [str u, name] = path_join folder [str u] @ CHR ''/'' # name"
    by (intro path_join_user_file) simp_all
  from assms have b: "path_join folder [str u, ''thumbnails'', other]
           = path_join folder [str u] @ ''/thumbnails/'' @ other"
    by (intro path_join_user_thumb) simp_all
  from assms have "hd name \<noteq> CHR ''t''" by auto
  with assms have "name \<noteq> ''thumbnails/'' @ other" by (cases name) auto
  with a b show ?thesis by simp
qed

lemma receipt_path_inj:
  assumes "a \<noteq> []" "hd a \<noteq> CHR ''/''" "b \<noteq> []" "hd b \<noteq> CHR ''/''"
  shows "path_join folder [str u, a] = path_join folder [str u, b] \<longleftrightarrow> a = b"
  using path_join_user_file [of a folder u] path_join_user_file [of b folder u] assms by simp

lemma thumb_path_inj:
  assumes "a \<noteq> []" "hd a \<noteq> CHR ''/''" "b \<noteq> []" "hd b \<noteq> CHR ''/''"
  shows "path_join folder [str u, ''thumbnails'', a] = path_join folder [str u, ''thumbnails'', b] \<longleftrightarrow> a = b"
  using path_join_user_thumb [of a folder u] path_join_user_thumb [of b folder u] assms by simp

text \<open>What \<open>save_receipt_file\<close> does with an allowed file, step by step.\<close>

lemma save_receipt_file_allowed:
  assumes "allowed_file (filename f)"
    and "splitext (secure_filename lib (filename f)) = (stem, ext)"
  shows "save_receipt_file lib folder token (Some f) u fs =
     (Some (unique_name u token ext),
      (let fs2 = write_file (path_join folder [str u, unique_name u token ext]) (data f)
                   (makedirs (path_join folder [str u]) fs)
       in if lower ext \<in> set [''.png'', ''.jpg'', ''.jpeg'']
          then create_thumbnail lib folder (path_join folder [str u, unique_name u token ext]) u
                 (unique_name u token ext) fs2
          else fs2))"
proof -
  from assms(1) have "filename f \<noteq> []" by (auto simp: allowed_file_def)
  with assms show ?thesis
    by (simp add: save_receipt_file_def Let_def path_join_append)
qed

lemma files_write_file: "files (write_file p d fs) = (files fs)(p \<mapsto> d)"
  by (simp add: write_file_def)

lemma files_makedirs: "files (makedirs p fs) = files fs"
  by (simp add: makedirs_def)

text \<open>
  The files after \<open>create_thumbnail\<close>, by what the libraries did: a thumbnail where
  nothing raised, the bytes written so far in a file that was there before where
  \<open>img.save\<close> raised after opening it, and no change otherwise.
\<close>

lemma create_thumbnail_files:
  assumes "files fs p = Some d"
  shows "files (create_thumbnail lib folder p u fname fs) =
     (case d of
        Picture w h \<Rightarrow>
          (case thumbnail_size (tie_to_ceiling lib) (200, 200) (w, h) of
             None \<Rightarrow> files fs
           | Some (w', h') \<Rightarrow>
               (case thumb_io lib of
                  Thumbnail_saved \<Rightarrow>
                    (files fs)(path_join folder [str u, ''thumbnails'', thumb_name fname] \<mapsto> Picture w' h')
                | Makedirs_raises \<Rightarrow> files fs
                | Save_raises left \<Rightarrow>
                    (case (files fs (path_join folder [str u, ''thumbnails'', thumb_name fname]), left) of
                       (Some old, Some s) \<Rightarrow>
                         (files fs)(path_join folder [str u, ''thumbnails'', thumb_name fname] \<mapsto> Octets s)
                     | _ \<Rightarrow> files fs)))
      | Octets s \<Rightarrow> files fs)"
  using assms
  by (simp add: create_thumbnail_def Let_def path_join_append files_write_file files_makedirs
      split: file_data.splits option.splits prod.splits thumbnail_io.splits)

text \<open>A path that is not the thumbnail's keeps its file through \<open>create_thumbnail\<close>.\<close>

lemma create_thumbnail_other_paths:
  assumes "q \<noteq> path_join folder [str u, ''thumbnails'', thumb_name fname]"
  shows "files (create_thumbnail lib folder p u fname fs) q = files fs q"
  using assms
  by (simp add: create_thumbnail_def Let_def path_join_append files_write_file files_makedirs
      split: file_data.splits option.splits prod.splits thumbnail_io.splits)

section \<open>The size of a thumbnail\<close>

lemma round_aspect_bounds:
  assumes "0 < number" "number \<le> of_int N"
  shows "1 \<le> round_aspect tie number key"
    and "round_aspect tie number key \<le> max N 1"
    and "\<bar>of_int (round_aspect tie number key) - number\<bar> < 1"
proof -
  define c where "c = (if key \<lfloor>number\<rfloor> < key \<lceil>number\<rceil> then \<lfloor>number\<rfloor>
          else if key \<lceil>number\<rceil> < key \<lfloor>number\<rfloor> then \<lceil>number\<rceil>
          else if tie then \<lceil>number\<rceil> else \<lfloor>number\<rfloor>)"
  have r: "round_aspect tie number key = max c 1" by (simp add: round_aspect_def c_def)
  have fl: "0 \<le> \<lfloor>number\<rfloor>" using assms(1) by simp
  have ce: "1 \<le> \<lceil>number\<rceil>" using assms(1) by (simp add: Suc_le_eq)
  have ceN: "\<lceil>number\<rceil> \<le> N" using assms(2) by (simp add: ceiling_le_iff)
  have flN: "\<lfloor>number\<rfloor> \<le> N" using assms(2) by (meson floor_le_ceiling order_trans ceN)
  show "1 \<le> round_aspect tie number key" by (simp add: r)
  show "round_aspect tie number key \<le> max N 1" using ceN flN by (auto simp: r c_def)
  have f1: "of_int \<lfloor>number\<rfloor> \<le> number" "number < of_int \<lfloor>number\<rfloor> + 1" by linarith+
  have c1: "number \<le> of_int \<lceil>number\<rceil>" "of_int \<lceil>number\<rceil> < number + 1" by linarith+
  show "\<bar>of_int (round_aspect tie number key) - number\<bar> < 1"
  proof (cases "c = \<lceil>number\<rceil>")
    case True
    with ce have "max c 1 = c" by simp
    with True c1 show ?thesis by (simp add: r abs_less_iff)
  next
    case False
    then have cf: "c = \<lfloor>number\<rfloor>" by (simp add: c_def split: if_splits)
    show ?thesis
    proof (cases "1 \<le> c")
      case True
      then have "max c 1 = c" by simp
      with cf f1 show ?thesis by (simp add: r abs_less_iff)
    next
      case False
      with cf fl have "\<lfloor>number\<rfloor> = 0" by linarith
      with f1 have "number < 1" by simp
      moreover from False have "max c 1 = 1" by simp
      ultimately show ?thesis using assms(1) by (simp add: r abs_less_iff)
    qed
  qed
qed


lemma scaled_within_one:
  fixes r a b :: int
  assumes "0 < b" "\<bar>rat_of_int r - rat_of_int a / rat_of_int b\<bar> < 1"
  shows "\<bar>r * b - a\<bar> < b"
proof -
  have b0: "(0::rat) < of_int b" using assms(1) by simp
  have "\<bar>rat_of_int r - rat_of_int a / rat_of_int b\<bar> * rat_of_int b < 1 * rat_of_int b"
    using assms(2) b0 by (rule mult_strict_right_mono)
  moreover have "\<bar>rat_of_int r - rat_of_int a / rat_of_int b\<bar> * rat_of_int b
        = \<bar>rat_of_int r * rat_of_int b - rat_of_int a\<bar>"
  proof -
    have "\<bar>rat_of_int r - rat_of_int a / rat_of_int b\<bar> * rat_of_int b
        = \<bar>(rat_of_int r - rat_of_int a / rat_of_int b) * rat_of_int b\<bar>"
      using b0 by (simp add: abs_mult)
    also have "(rat_of_int r - rat_of_int a / rat_of_int b) * rat_of_int b
        = rat_of_int r * rat_of_int b - rat_of_int a"
      using b0 by (simp add: field_simps)
    finally show ?thesis .
  qed
  ultimately have "\<bar>rat_of_int r * rat_of_int b - rat_of_int a\<bar> < rat_of_int b" by simp
  then have "rat_of_int \<bar>r * b - a\<bar> < rat_of_int b" by simp
  then show ?thesis by (simp only: of_int_less_iff)
qed

lemma thumbnail_size_fits:
  assumes "0 < w" "0 < h"
  shows "\<exists>w' h'. thumbnail_size tie (200, 200) (w, h) = Some (w', h')
     \<and> 1 \<le> w' \<and> w' \<le> 200 \<and> 1 \<le> h' \<and> h' \<le> 200
     \<and> \<bar>int w' * int h - int h' * int w\<bar> < int (max w h)"
proof (cases "w \<le> 200 \<and> h \<le> 200")
  case True
  with assms show ?thesis by (simp add: thumbnail_size_def)
next
  case False
  define aspect where "aspect = rat_of_nat w / rat_of_nat h"
  have hpos: "(0::rat) < of_nat h" and wpos: "(0::rat) < of_nat w" using assms by simp_all
  show ?thesis
  proof (cases "w \<le> h")
    case True
    define key where "key = (\<lambda>n. \<bar>aspect - rat_of_int n / rat_of_nat 200\<bar>)"
    define r where "r = round_aspect tie (rat_of_nat 200 * aspect) key"
    have le: "(1::rat) \<ge> aspect" using True hpos by (simp add: aspect_def)
    have num: "rat_of_nat 200 * aspect = rat_of_int (200 * int w) / rat_of_int (int h)"
      by (simp add: aspect_def)
    have pos: "0 < rat_of_nat 200 * aspect" using wpos hpos by (simp add: aspect_def)
    have up: "rat_of_nat 200 * aspect \<le> of_int 200" using le by simp
    note b = round_aspect_bounds [OF pos up, where key = key and tie = tie, folded r_def]
    have ts: "thumbnail_size tie (200, 200) (w, h) = Some (nat r, 200)"
      using False assms le
      by (auto simp add: thumbnail_size_def Let_def r_def key_def aspect_def)
    have "\<bar>r * int h - 200 * int w\<bar> < int h"
      using b(3) assms(2) unfolding num by (intro scaled_within_one) simp_all
    moreover have "int (nat r) = r" using b(1) by simp
    ultimately have "\<bar>int (nat r) * int h - int 200 * int w\<bar> < int (max w h)"
      using True by (simp add: max_def)
    moreover have "1 \<le> nat r" "nat r \<le> 200" using b(1,2) by simp_all
    ultimately show ?thesis using ts by auto
  next
    case wh: False
    define key where "key = (\<lambda>n. if n = 0 then 0 else \<bar>aspect - rat_of_nat 200 / rat_of_int n\<bar>)"
    define r where "r = round_aspect tie (rat_of_nat 200 / aspect) key"
    have gt: "\<not> (1::rat) \<ge> aspect" using wh hpos by (simp add: aspect_def)
    have num: "rat_of_nat 200 / aspect = rat_of_int (200 * int h) / rat_of_int (int w)"
      by (simp add: aspect_def)
    have pos: "0 < rat_of_nat 200 / aspect" using wpos hpos by (simp add: aspect_def)
    have up: "rat_of_nat 200 / aspect \<le> of_int 200"
      using gt wpos hpos by (simp add: aspect_def field_simps)
    note b = round_aspect_bounds [OF pos up, where key = key and tie = tie, folded r_def]
    have c: "\<not> rat_of_nat w * 200 / rat_of_nat h \<le> 200"
    proof
      assume "rat_of_nat w * 200 / rat_of_nat h \<le> 200"
      then have "rat_of_nat w * 200 \<le> 200 * rat_of_nat h"
        using hpos by (simp add: pos_divide_le_eq)
      then have "rat_of_nat w \<le> rat_of_nat h" by simp
      then show False using wh by simp
    qed
    have ts: "thumbnail_size tie (200, 200) (w, h) = Some (200, nat r)"
      using False assms c
      by (auto simp add: thumbnail_size_def Let_def r_def key_def aspect_def cong: if_cong)
    have "\<bar>r * int w - 200 * int h\<bar> < int w"
      using b(3) assms(1) unfolding num by (intro scaled_within_one) simp_all
    moreover have "int (nat r) = r" using b(1) by simp
    ultimately have "\<bar>int 200 * int h - int (nat r) * int w\<bar> < int (max w h)"
      using wh by (simp add: max_def abs_minus_commute)
    moreover have "1 \<le> nat r" "nat r \<le> 200" using b(1,2) by simp_all
    ultimately show ?thesis using ts by auto
  qed
qed

section \<open>Storing a receipt\<close>

lemma after_last_dot_append:
  assumes "CHR ''.'' \<notin> set e"
  shows "after_last_dot (stem @ CHR ''.'' # e) = e"
proof -
  from assms have "takeWhile (\<lambda>c. c \<noteq> CHR ''.'') (rev e @ CHR ''.'' # rev stem) = rev e"
    by (subst takeWhile_append2) auto
  then show ?thesis unfolding after_last_dot_def by (simp only: rev_append rev.simps rev_rev_ident append.assoc append_Cons append_Nil)
qed

lemma after_last_dot_no_dot:
  assumes "CHR ''.'' \<notin> set e"
  shows "after_last_dot e = e"
proof -
  from assms have "takeWhile (\<lambda>c. c \<noteq> CHR ''.'') (rev e) = rev e"
    by (intro takeWhile_eq_all_conv [THEN iffD2]) auto
  then show ?thesis unfolding after_last_dot_def by (simp only: rev_rev_ident)
qed

lemma allowed_file_iff:
  "allowed_file fn \<longleftrightarrow>
     (\<exists>stem e. fn = stem @ CHR ''.'' # e \<and> CHR ''.'' \<notin> set e \<and> lower e \<in> ALLOWED_EXTENSIONS)"
proof
  assume a: "allowed_file fn"
  then have "CHR ''.'' \<in> set fn" by (simp add: allowed_file_def)
  then have "fn = take (length fn - length (after_last_dot fn) - 1) fn @ CHR ''.'' # after_last_dot fn"
    by (rule after_last_dot_split)
  with a no_dot_after_last_dot [of fn] show "\<exists>stem e. fn = stem @ CHR ''.'' # e \<and> CHR ''.'' \<notin> set e \<and> lower e \<in> ALLOWED_EXTENSIONS"
    unfolding allowed_file_def by blast
next
  assume "\<exists>stem e. fn = stem @ CHR ''.'' # e \<and> CHR ''.'' \<notin> set e \<and> lower e \<in> ALLOWED_EXTENSIONS"
  then show "allowed_file fn"
    by (auto simp: allowed_file_def after_last_dot_append)
qed

text \<open>
  Claim C7. A file whose name has no dot, or whose text after the last dot is, in lower
  case, none of png, jpg, jpeg and pdf, is not stored: the result is \<open>None\<close> and
  the file system is the one before the call, directories included.
\<close>

theorem save_receipt_file_rejects_extension:
  "\<not> (\<exists>stem e. filename f = stem @ CHR ''.'' # e \<and> CHR ''.'' \<notin> set e
         \<and> lower e \<in> {''png'', ''jpg'', ''jpeg'', ''pdf''})
   \<Longrightarrow> save_receipt_file lib folder token (Some f) u fs = (None, fs)"
proof -
  assume "\<not> (\<exists>stem e. filename f = stem @ CHR ''.'' # e \<and> CHR ''.'' \<notin> set e
         \<and> lower e \<in> {''png'', ''jpg'', ''jpeg'', ''pdf''})"
  then have "\<not> allowed_file (filename f)"
    by (simp add: allowed_file_iff ALLOWED_EXTENSIONS_def)
  then show ?thesis by (simp add: save_receipt_file_def)
qed

lemma lower_simps:
  "lower [] = []" "lower (c # cs) = lower_char c # lower cs"
  by (simp_all add: lower_def)

text \<open>
  A name whose last extension is exe, although png occurs in it.
\<close>

theorem save_receipt_file_rejects_extension_witness:
  "save_receipt_file plain_library ''/srv/receipts'' ''abcd1234''
      (Some \<lparr>filename = ''invoice.png.exe'', data = Octets ''MZ''\<rparr>) 1 empty_disk = (None, empty_disk)"
proof -
  have "\<not> allowed_file ''invoice.png.exe''"
    by (simp add: allowed_file_def after_last_dot_def lower_def lower_char_def ALLOWED_EXTENSIONS_def)
  then have "\<not> (\<exists>stem e. filename \<lparr>filename = ''invoice.png.exe'', data = Octets ''MZ''\<rparr> = stem @ CHR ''.'' # e
         \<and> CHR ''.'' \<notin> set e \<and> lower e \<in> {''png'', ''jpg'', ''jpeg'', ''pdf''})"
    by (simp add: allowed_file_iff ALLOWED_EXTENSIONS_def)
  then show ?thesis by (rule save_receipt_file_rejects_extension)
qed

lemma create_thumbnail_fails_before_save:
  assumes "files fs p = Some d"
    and "(\<exists>s. d = Octets s)
       \<or> (\<exists>w h. d = Picture w h \<and> thumbnail_size (tie_to_ceiling lib) (200, 200) (w, h) = None)
       \<or> thumb_io lib = Makedirs_raises"
  shows "create_thumbnail lib folder p u fname fs = fs"
  using assms
  by (auto simp: create_thumbnail_def Let_def split: file_data.splits option.splits)

lemma dirs_create_thumbnail:
  "dirs (create_thumbnail lib folder p u fname fs) = dirs fs
   \<or> dirs (create_thumbnail lib folder p u fname fs)
        = insert (path_join folder [str u, ''thumbnails'']) (dirs fs)"
  by (simp add: create_thumbnail_def Let_def makedirs_def write_file_def
      split: file_data.splits option.splits prod.splits thumbnail_io.splits)

lemma original_neq_thumbnail:
  "path_join folder [str u, unique_name u token ext]
     \<noteq> path_join folder [str u, ''thumbnails'', thumb_name (unique_name u token ext)]"
proof -
  note s = unique_name_shape [of u token ext]
  then have "hd (unique_name u token ext) \<noteq> CHR ''/''" by auto
  with s thumb_name_shape [of "unique_name u token ext"]
  show ?thesis by (intro receipt_path_neq_thumb_path) simp_all
qed

lemma save_receipt_file_files_elsewhere:
  assumes "allowed_file (filename f)"
    and "splitext (secure_filename lib (filename f)) = (stem, ext)"
    and "q \<noteq> path_join folder [str u, ''thumbnails'', thumb_name (unique_name u token ext)]"
  shows "files (snd (save_receipt_file lib folder token (Some f) u fs)) q
           = ((files fs)(path_join folder [str u, unique_name u token ext] \<mapsto> data f)) q"
proof -
  let ?orig = "path_join folder [str u, unique_name u token ext]"
  let ?fs2 = "write_file ?orig (data f) (makedirs (path_join folder [str u]) fs)"
  have w: "files ?fs2 q = ((files fs)(?orig \<mapsto> data f)) q"
    by (simp add: files_write_file files_makedirs)
  have c: "files (create_thumbnail lib folder ?orig u (unique_name u token ext) ?fs2) q = files ?fs2 q"
    using assms(3) by (rule create_thumbnail_other_paths)
  show ?thesis
  proof (cases "lower ext \<in> set [''.png'', ''.jpg'', ''.jpeg'']")
    case True
    then have "snd (save_receipt_file lib folder token (Some f) u fs)
        = create_thumbnail lib folder ?orig u (unique_name u token ext) ?fs2"
      by (simp add: save_receipt_file_allowed [OF assms(1,2)] Let_def)
    with c w show ?thesis by (simp only:)
  next
    case False
    then have "snd (save_receipt_file lib folder token (Some f) u fs) = ?fs2"
      by (simp add: save_receipt_file_allowed [OF assms(1,2)] Let_def)
    with w show ?thesis by (simp only:)
  qed
qed

lemma original_persists:
  assumes "allowed_file (filename f)"
    and "splitext (secure_filename lib (filename f)) = (stem, ext)"
  shows "files (snd (save_receipt_file lib folder token (Some f) u fs))
           (path_join folder [str u, unique_name u token ext]) = Some (data f)"
  using save_receipt_file_files_elsewhere [OF assms original_neq_thumbnail] by simp

lemma failed_thumbnail_file:
  assumes "allowed_file (filename f)"
    and "splitext (secure_filename lib (filename f)) = (stem, ext)"
    and "thumbnail_fails lib (data f)"
  shows "files (snd (save_receipt_file lib folder token (Some f) u fs))
             (path_join folder [str u, ''thumbnails'', thumb_name (unique_name u token ext)])
           = files fs (path_join folder [str u, ''thumbnails'', thumb_name (unique_name u token ext)])
       \<or> (\<exists>s. thumb_io lib = Save_raises (Some s)
             \<and> files fs (path_join folder [str u, ''thumbnails'', thumb_name (unique_name u token ext)]) \<noteq> None
             \<and> files (snd (save_receipt_file lib folder token (Some f) u fs))
                 (path_join folder [str u, ''thumbnails'', thumb_name (unique_name u token ext)])
               = Some (Octets s))"
proof -
  let ?orig = "path_join folder [str u, unique_name u token ext]"
  let ?thumb = "path_join folder [str u, ''thumbnails'', thumb_name (unique_name u token ext)]"
  let ?fs2 = "write_file ?orig (data f) (makedirs (path_join folder [str u]) fs)"
  have w: "files ?fs2 ?orig = Some (data f)" by (simp add: files_write_file)
  have t: "files ?fs2 ?thumb = files fs ?thumb"
    using original_neq_thumbnail [of folder u token ext] by (simp add: files_write_file files_makedirs)
  show ?thesis
  proof (cases "lower ext \<in> set [''.png'', ''.jpg'', ''.jpeg'']")
    case False
    with t show ?thesis by (simp add: save_receipt_file_allowed [OF assms(1,2)] Let_def)
  next
    case True
    have "files (create_thumbnail lib folder ?orig u (unique_name u token ext) ?fs2) ?thumb
            = files fs ?thumb
        \<or> (\<exists>s. thumb_io lib = Save_raises (Some s) \<and> files fs ?thumb \<noteq> None
              \<and> files (create_thumbnail lib folder ?orig u (unique_name u token ext) ?fs2) ?thumb
                  = Some (Octets s))"
      using assms(3) t unfolding create_thumbnail_files [OF w] thumbnail_fails_def
      by (auto split: file_data.splits option.splits thumbnail_io.splits)
    with True show ?thesis by (simp add: save_receipt_file_allowed [OF assms(1,2)] Let_def)
  qed
qed

lemma dirs_save_receipt_file:
  assumes "allowed_file (filename f)"
    and "splitext (secure_filename lib (filename f)) = (stem, ext)"
  shows "dirs (snd (save_receipt_file lib folder token (Some f) u fs))
           = insert (path_join folder [str u]) (dirs fs)
       \<or> dirs (snd (save_receipt_file lib folder token (Some f) u fs))
           = insert (path_join folder [str u, ''thumbnails''])
               (insert (path_join folder [str u]) (dirs fs))"
proof -
  let ?orig = "path_join folder [str u, unique_name u token ext]"
  let ?fs2 = "write_file ?orig (data f) (makedirs (path_join folder [str u]) fs)"
  have d: "dirs ?fs2 = insert (path_join folder [str u]) (dirs fs)"
    by (simp add: write_file_def makedirs_def)
  from dirs_create_thumbnail [of lib folder ?orig u "unique_name u token ext" ?fs2] d
  show ?thesis
    by (cases "lower ext \<in> set [''.png'', ''.jpg'', ''.jpeg'']")
      (simp_all add: save_receipt_file_allowed [OF assms] Let_def)
qed

lemma failure_before_save_state:
  assumes "allowed_file (filename f)"
    and "splitext (secure_filename lib (filename f)) = (stem, ext)"
    and "(\<exists>s. data f = Octets s)
       \<or> (\<exists>w h. data f = Picture w h \<and> thumbnail_size (tie_to_ceiling lib) (200, 200) (w, h) = None)
       \<or> thumb_io lib = Makedirs_raises"
  shows "snd (save_receipt_file lib folder token (Some f) u fs)
       = write_file (path_join folder [str u, unique_name u token ext]) (data f)
           (makedirs (path_join folder [str u]) fs)"
proof -
  let ?orig = "path_join folder [str u, unique_name u token ext]"
  let ?fs2 = "write_file ?orig (data f) (makedirs (path_join folder [str u]) fs)"
  have w: "files ?fs2 ?orig = Some (data f)" by (simp add: files_write_file)
  have "create_thumbnail lib folder ?orig u (unique_name u token ext) ?fs2 = ?fs2"
    using w assms(3) by (rule create_thumbnail_fails_before_save)
  then show ?thesis by (simp add: save_receipt_file_allowed [OF assms(1,2)] Let_def)
qed

text \<open>
  Claim C8. For an allowed file, whatever its bytes are and whatever the libraries do
  while the thumbnail is derived, \<open>save_receipt_file\<close> returns the generated name, the
  original is in the file system under that name afterwards, and every other path apart
  from the thumbnail's holds what it held before. Where deriving the thumbnail fails, no
  thumbnail is made: the thumbnail's path holds what it held before the call or, where
  \<open>img.save\<close> raised after it had opened a file that was already there, the bytes
  written until then. The directories afterwards are those before with the user's
  directory and, where \<open>os.makedirs\<close> was reached, the thumbnails directory. Where the
  failure comes before \<open>img.save\<close> (bytes that do not decode, the division by zero of
  the size computation, \<open>os.makedirs\<close> raising), the call has done exactly what it
  does without a thumbnail: it made the user's directory and wrote the original.
\<close>

theorem save_receipt_file_survives_thumbnail_failure:
  assumes "allowed_file (filename f)"
    and "splitext (secure_filename lib (filename f)) = (stem, ext)"
  shows "fst (save_receipt_file lib folder token (Some f) u fs) = Some (unique_name u token ext)
     \<and> files (snd (save_receipt_file lib folder token (Some f) u fs))
           (path_join folder [str u, unique_name u token ext]) = Some (data f)
     \<and> (\<forall>q. q \<noteq> path_join folder [str u, ''thumbnails'', thumb_name (unique_name u token ext)] \<longrightarrow>
           files (snd (save_receipt_file lib folder token (Some f) u fs)) q
             = ((files fs)(path_join folder [str u, unique_name u token ext] \<mapsto> data f)) q)
     \<and> (thumbnail_fails lib (data f) \<longrightarrow>
           files (snd (save_receipt_file lib folder token (Some f) u fs))
               (path_join folder [str u, ''thumbnails'', thumb_name (unique_name u token ext)])
             = files fs (path_join folder [str u, ''thumbnails'', thumb_name (unique_name u token ext)])
         \<or> (\<exists>s. thumb_io lib = Save_raises (Some s)
               \<and> files fs (path_join folder [str u, ''thumbnails'', thumb_name (unique_name u token ext)]) \<noteq> None
               \<and> files (snd (save_receipt_file lib folder token (Some f) u fs))
                   (path_join folder [str u, ''thumbnails'', thumb_name (unique_name u token ext)])
                 = Some (Octets s)))
     \<and> (dirs (snd (save_receipt_file lib folder token (Some f) u fs))
           = insert (path_join folder [str u]) (dirs fs)
         \<or> dirs (snd (save_receipt_file lib folder token (Some f) u fs))
             = insert (path_join folder [str u, ''thumbnails''])
                 (insert (path_join folder [str u]) (dirs fs)))
     \<and> ((\<exists>s. data f = Octets s)
         \<or> (\<exists>w h. data f = Picture w h \<and> thumbnail_size (tie_to_ceiling lib) (200, 200) (w, h) = None)
         \<or> thumb_io lib = Makedirs_raises \<longrightarrow>
           snd (save_receipt_file lib folder token (Some f) u fs)
             = write_file (path_join folder [str u, unique_name u token ext]) (data f)
                 (makedirs (path_join folder [str u]) fs))"
proof (intro conjI allI impI)
  show "fst (save_receipt_file lib folder token (Some f) u fs) = Some (unique_name u token ext)"
    by (simp add: save_receipt_file_allowed [OF assms])
  show "files (snd (save_receipt_file lib folder token (Some f) u fs))
           (path_join folder [str u, unique_name u token ext]) = Some (data f)"
    using assms by (rule original_persists)
  show "dirs (snd (save_receipt_file lib folder token (Some f) u fs))
           = insert (path_join folder [str u]) (dirs fs)
         \<or> dirs (snd (save_receipt_file lib folder token (Some f) u fs))
             = insert (path_join folder [str u, ''thumbnails''])
                 (insert (path_join folder [str u]) (dirs fs))"
    using assms by (rule dirs_save_receipt_file)
next
  fix q assume "q \<noteq> path_join folder [str u, ''thumbnails'', thumb_name (unique_name u token ext)]"
  with assms show "files (snd (save_receipt_file lib folder token (Some f) u fs)) q
             = ((files fs)(path_join folder [str u, unique_name u token ext] \<mapsto> data f)) q"
    by (rule save_receipt_file_files_elsewhere)
next
  assume "thumbnail_fails lib (data f)"
  with assms show "files (snd (save_receipt_file lib folder token (Some f) u fs))
               (path_join folder [str u, ''thumbnails'', thumb_name (unique_name u token ext)])
             = files fs (path_join folder [str u, ''thumbnails'', thumb_name (unique_name u token ext)])
         \<or> (\<exists>s. thumb_io lib = Save_raises (Some s)
               \<and> files fs (path_join folder [str u, ''thumbnails'', thumb_name (unique_name u token ext)]) \<noteq> None
               \<and> files (snd (save_receipt_file lib folder token (Some f) u fs))
                   (path_join folder [str u, ''thumbnails'', thumb_name (unique_name u token ext)])
                 = Some (Octets s))"
    by (rule failed_thumbnail_file)
next
  assume "(\<exists>s. data f = Octets s)
         \<or> (\<exists>w h. data f = Picture w h \<and> thumbnail_size (tie_to_ceiling lib) (200, 200) (w, h) = None)
         \<or> thumb_io lib = Makedirs_raises"
  with assms show "snd (save_receipt_file lib folder token (Some f) u fs)
             = write_file (path_join folder [str u, unique_name u token ext]) (data f)
                 (makedirs (path_join folder [str u]) fs)"
    by (rule failure_before_save_state)
qed

lemmas eval_names =
  allowed_file_def after_last_dot_def lower_def lower_char_def ALLOWED_EXTENSIONS_def
  secure_filename_def normalize_nfkd_def strip_dots_underscores_def safe_char_def is_ascii_def
  is_space_def join_underscore_def splitext_def Let_def unique_name_def thumb_name_def str_def
  str_nat.simps digit_char_def path_join_def join2_def

text \<open>
  A file named scan.jpg that is no image: stored, and no thumbnail beside it. And an image
  named shot.jpg whose thumbnail \<open>img.save\<close> refuses to write: the generated name is
  returned, the original is stored, and nothing is at the thumbnail's path.
\<close>

theorem save_receipt_file_survives_thumbnail_failure_witness:
  "save_receipt_file plain_library ''/srv/receipts'' ''abcd1234'' (Some damaged_scan) 1 empty_disk
     = (Some ''1_abcd1234.jpg'',
        \<lparr>files = [''/srv/receipts/1/1_abcd1234.jpg'' \<mapsto> Octets ''not an image''],
         dirs = {''/srv/receipts/1''}\<rparr>)
   \<and> thumbnail_fails unsavable_library (data shot_upload)
   \<and> fst (save_receipt_file unsavable_library ''/srv/receipts'' ''abcd1234'' (Some shot_upload) 1 empty_disk)
       = Some ''1_abcd1234.jpg''
   \<and> files (snd (save_receipt_file unsavable_library ''/srv/receipts'' ''abcd1234'' (Some shot_upload) 1
         empty_disk)) ''/srv/receipts/1/1_abcd1234.jpg'' = Some (Picture 1000 500)
   \<and> files (snd (save_receipt_file unsavable_library ''/srv/receipts'' ''abcd1234'' (Some shot_upload) 1
         empty_disk)) ''/srv/receipts/1/thumbnails/1_abcd1234_thumb.jpg'' = None"
proof -
  have a: "allowed_file (filename damaged_scan)" "allowed_file (filename shot_upload)"
    by (simp_all add: damaged_scan_def shot_upload_def eval_names)
  have s1: "splitext (secure_filename plain_library (filename damaged_scan)) = (''scan'', ''.jpg'')"
    by (simp add: damaged_scan_def eval_names)
  have s2: "splitext (secure_filename unsavable_library (filename shot_upload)) = (''shot'', ''.jpg'')"
    by (simp add: shot_upload_def eval_names)
  have d: "\<exists>s. data damaged_scan = Octets s" by (simp add: damaged_scan_def)
  have t: "thumbnail_fails unsavable_library (data shot_upload)"
    by (simp add: shot_upload_def thumbnail_fails_def unsavable_library_def plain_library_def)
  have p: "unique_name 1 ''abcd1234'' ''.jpg'' = ''1_abcd1234.jpg''"
    "path_join ''/srv/receipts'' [str 1] = ''/srv/receipts/1''"
    "path_join ''/srv/receipts'' [str 1, ''1_abcd1234.jpg''] = ''/srv/receipts/1/1_abcd1234.jpg''"
    "path_join ''/srv/receipts'' [str 1, ''thumbnails'', thumb_name ''1_abcd1234.jpg'']
       = ''/srv/receipts/1/thumbnails/1_abcd1234_thumb.jpg''"
    by (simp_all add: eval_names)
  have e: "files empty_disk = Map.empty" by (simp add: empty_disk_def)
  note i1 = save_receipt_file_survives_thumbnail_failure
    [OF a(1) s1, of "''/srv/receipts''" "''abcd1234''" 1 empty_disk, unfolded p]
  note i2 = save_receipt_file_survives_thumbnail_failure
    [OF a(2) s2, of "''/srv/receipts''" "''abcd1234''" 1 empty_disk, unfolded p e]
  from i1 d have
    "fst (save_receipt_file plain_library ''/srv/receipts'' ''abcd1234'' (Some damaged_scan) 1 empty_disk)
       = Some ''1_abcd1234.jpg''"
    "snd (save_receipt_file plain_library ''/srv/receipts'' ''abcd1234'' (Some damaged_scan) 1 empty_disk)
       = write_file ''/srv/receipts/1/1_abcd1234.jpg'' (data damaged_scan)
           (makedirs ''/srv/receipts/1'' empty_disk)"
    by blast+
  then have r1: "save_receipt_file plain_library ''/srv/receipts'' ''abcd1234'' (Some damaged_scan) 1 empty_disk
     = (Some ''1_abcd1234.jpg'',
        \<lparr>files = [''/srv/receipts/1/1_abcd1234.jpg'' \<mapsto> Octets ''not an image''],
         dirs = {''/srv/receipts/1''}\<rparr>)"
    by (simp add: prod_eq_iff write_file_def makedirs_def empty_disk_def damaged_scan_def)
  from i2 have r2:
    "fst (save_receipt_file unsavable_library ''/srv/receipts'' ''abcd1234'' (Some shot_upload) 1 empty_disk)
       = Some ''1_abcd1234.jpg''"
    "files (snd (save_receipt_file unsavable_library ''/srv/receipts'' ''abcd1234'' (Some shot_upload) 1
         empty_disk)) ''/srv/receipts/1/1_abcd1234.jpg'' = Some (data shot_upload)"
    by blast+
  from i2 t have r3: "files (snd (save_receipt_file unsavable_library ''/srv/receipts'' ''abcd1234'' (Some shot_upload) 1
         empty_disk)) ''/srv/receipts/1/thumbnails/1_abcd1234_thumb.jpg'' = None"
    by (elim conjE) auto
  from r1 t r2 r3 show ?thesis by (simp add: shot_upload_def)
qed

lemma set_str_nat: "set (str_nat n) \<subseteq> set ''0123456789''"
proof (induction n rule: str_nat.induct)
  case (1 n)
  show ?case
  proof (cases "n < 10")
    case True
    then have "str_nat n = [digit_char n]" by (subst str_nat.simps) simp
    then show ?thesis using digit_char_in [of n] by simp
  next
    case False
    then have "str_nat n = str_nat (n div 10) @ [digit_char (n mod 10)]"
      by (subst str_nat.simps) simp
    with 1 False digit_char_in [of "n mod 10"] show ?thesis by simp
  qed
qed

lemma set_str: "set (str i) \<subseteq> set ''-0123456789''"
proof -
  have "set ''0123456789'' \<subseteq> set ''-0123456789''" by (simp add: subset_insertI)
  with set_str_nat [of "nat i"] set_str_nat [of "nat (- i)"]
  have "set (str_nat (nat i)) \<subseteq> set ''-0123456789''"
    "set (str_nat (nat (- i))) \<subseteq> set ''-0123456789''" by blast+
  then show ?thesis by (simp add: str_def)
qed

lemma splitext_ext_shape:
  "splitext p = (a, b) \<Longrightarrow>
     b = [] \<or> (\<exists>e. b = CHR ''.'' # e \<and> CHR ''.'' \<notin> set e \<and> CHR ''/'' \<notin> set e)"
  using no_dot_after_last_dot [of p]
  by (auto simp: splitext_def Let_def split: if_splits)

lemma takeWhile_all: "\<forall>x \<in> set xs. P x \<Longrightarrow> takeWhile P xs = xs"
  by (simp add: takeWhile_eq_all_conv)

lemma splitext_plain:
  assumes "CHR ''.'' \<notin> set s"
  shows "splitext s = (s, [])"
  using assms by (simp add: splitext_def Let_def)

lemma splitext_dotted:
  assumes "CHR ''.'' \<notin> set e" "CHR ''/'' \<notin> set e" "CHR ''/'' \<notin> set s" "c \<in> set s" "c \<noteq> CHR ''.''"
  shows "splitext (s @ CHR ''.'' # e) = (s, CHR ''.'' # e)"
proof -
  have e: "after_last_dot (s @ CHR ''.'' # e) = e"
    using assms(1) by (rule after_last_dot_append)
  have "\<forall>x \<in> set (rev s). x \<noteq> CHR ''/''" using assms(3) by auto
  then have b: "takeWhile (\<lambda>c. c \<noteq> CHR ''/'') (rev s) = rev s" by (rule takeWhile_all)
  have "\<exists>c \<in> set s. c \<noteq> CHR ''.''" using assms(4,5) by blast
  with assms(2) show ?thesis
    unfolding splitext_def e Let_def by (simp add: b)
qed

lemma hex_no_dot_slash:
  assumes "set token \<subseteq> set ''0123456789abcdef''"
  shows "CHR ''.'' \<notin> set token" "CHR ''/'' \<notin> set token"
proof -
  have "CHR ''.'' \<notin> set ''0123456789abcdef''" "CHR ''/'' \<notin> set ''0123456789abcdef''"
    by simp_all
  with assms show "CHR ''.'' \<notin> set token" "CHR ''/'' \<notin> set token" by blast+
qed

lemma str_no_dot_slash: "CHR ''.'' \<notin> set (str u)" "CHR ''/'' \<notin> set (str u)"
proof -
  have "CHR ''.'' \<notin> set ''-0123456789''" "CHR ''/'' \<notin> set ''-0123456789''"
    by simp_all
  with set_str [of u] show "CHR ''.'' \<notin> set (str u)" "CHR ''/'' \<notin> set (str u)" by blast+
qed

lemma splitext_unique_name:
  assumes "set token \<subseteq> set ''0123456789abcdef''"
    and "splitext p = (stem, ext)"
  shows "splitext (unique_name u token ext) = (str u @ ''_'' @ token, ext)"
proof -
  let ?s = "str u @ ''_'' @ token"
  have nd: "CHR ''.'' \<notin> set ?s" and ns: "CHR ''/'' \<notin> set ?s"
    using hex_no_dot_slash [OF assms(1)] str_no_dot_slash [of u] by auto
  from splitext_ext_shape [OF assms(2)] show ?thesis
  proof
    assume "ext = []"
    with nd show ?thesis by (simp add: unique_name_def splitext_plain)
  next
    assume "\<exists>e. ext = CHR ''.'' # e \<and> CHR ''.'' \<notin> set e \<and> CHR ''/'' \<notin> set e"
    then obtain e where e: "ext = CHR ''.'' # e" "CHR ''.'' \<notin> set e" "CHR ''/'' \<notin> set e" by blast
    have "CHR ''_'' \<in> set ?s" by simp
    then have "splitext (?s @ CHR ''.'' # e) = (?s, CHR ''.'' # e)"
      using e(2,3) ns by (intro splitext_dotted [where c = "CHR ''_''"]) simp_all
    then show ?thesis by (simp add: unique_name_def e(1))
  qed
qed

lemma thumb_name_unique_name:
  assumes "set token \<subseteq> set ''0123456789abcdef''"
    and "splitext p = (stem, ext)"
  shows "thumb_name (unique_name u token ext) = str u @ ''_'' @ token @ ''_thumb'' @ ext"
  by (simp add: thumb_name_def splitext_unique_name [OF assms])

text \<open>
  Claim C4, as the code has it. For an allowed file, with \<open>ext\<close> the extension of the
  sanitised name and a token of hexadecimal digits, the call returns the generated name
  \<open>user_token.ext\<close>. Where \<open>ext\<close> is, in lower case, .png, .jpg or .jpeg, the bytes
  decode as an image of positive width and height and neither \<open>os.makedirs\<close> nor
  \<open>img.save\<close> raises, the file system gains exactly two files: the original at
  \<open>folder/user/generated name\<close> and a thumbnail at
  \<open>folder/user/thumbnails/user_token_thumb.ext\<close>, a different path. Both sides of the
  thumbnail are between 1 and 200 pixels, and its sides are those of the image scaled by
  one factor up to the rounding of one side to a whole pixel, whichever way a tie is
  rounded. Where deriving the thumbnail fails, the file system gains the original and no
  thumbnail; a file that was at the thumbnail's path already may then hold the bytes that
  \<open>img.save\<close> wrote before it raised. For a .pdf the file system gains the original
  only.
\<close>

theorem save_receipt_file_original_and_thumbnail:
  assumes "allowed_file (filename f)"
    and "splitext (secure_filename lib (filename f)) = (stem, ext)"
    and "set token \<subseteq> set ''0123456789abcdef''"
  shows "fst (save_receipt_file lib folder token (Some f) u fs) = Some (unique_name u token ext)
     \<and> (lower ext \<in> {''.png'', ''.jpg'', ''.jpeg''} \<and> data f = Picture w h \<and> 0 < w \<and> 0 < h
          \<and> thumb_io lib = Thumbnail_saved \<longrightarrow>
          (\<exists>w' h'. files (snd (save_receipt_file lib folder token (Some f) u fs)) =
               (files fs)
                 (path_join folder [str u, unique_name u token ext] \<mapsto> Picture w h,
                  path_join folder [str u, ''thumbnails'', str u @ ''_'' @ token @ ''_thumb'' @ ext]
                    \<mapsto> Picture w' h')
             \<and> path_join folder [str u, unique_name u token ext]
                 \<noteq> path_join folder [str u, ''thumbnails'', str u @ ''_'' @ token @ ''_thumb'' @ ext]
             \<and> 1 \<le> w' \<and> w' \<le> 200 \<and> 1 \<le> h' \<and> h' \<le> 200
             \<and> \<bar>int w' * int h - int h' * int w\<bar> < int (max w h)))
     \<and> (lower ext \<in> {''.png'', ''.jpg'', ''.jpeg''} \<and> thumbnail_fails lib (data f) \<longrightarrow>
          files (snd (save_receipt_file lib folder token (Some f) u fs)) =
            (files fs)(path_join folder [str u, unique_name u token ext] \<mapsto> data f)
          \<or> (\<exists>s. thumb_io lib = Save_raises (Some s)
                \<and> files fs (path_join folder [str u, ''thumbnails'', str u @ ''_'' @ token @ ''_thumb'' @ ext])
                    \<noteq> None
                \<and> files (snd (save_receipt_file lib folder token (Some f) u fs)) =
                    (files fs)
                      (path_join folder [str u, unique_name u token ext] \<mapsto> data f,
                       path_join folder [str u, ''thumbnails'', str u @ ''_'' @ token @ ''_thumb'' @ ext]
                         \<mapsto> Octets s)))
     \<and> (lower ext = ''.pdf'' \<longrightarrow>
          files (snd (save_receipt_file lib folder token (Some f) u fs)) =
            (files fs)(path_join folder [str u, unique_name u token ext] \<mapsto> data f))"
proof (intro conjI impI)
  let ?orig = "path_join folder [str u, unique_name u token ext]"
  let ?thumb = "path_join folder [str u, ''thumbnails'', str u @ ''_'' @ token @ ''_thumb'' @ ext]"
  let ?fs2 = "write_file ?orig (data f) (makedirs (path_join folder [str u]) fs)"
  note save = save_receipt_file_allowed [OF assms(1,2), of folder token u fs]
  note tn = thumb_name_unique_name [OF assms(3) assms(2), of u]
  show "fst (save_receipt_file lib folder token (Some f) u fs) = Some (unique_name u token ext)"
    by (simp add: save)
  {
    assume a: "lower ext \<in> {''.png'', ''.jpg'', ''.jpeg''} \<and> data f = Picture w h \<and> 0 < w \<and> 0 < h
          \<and> thumb_io lib = Thumbnail_saved"
    then have img: "lower ext \<in> set [''.png'', ''.jpg'', ''.jpeg'']" by simp
    from a have d: "data f = Picture w h" and w: "0 < w" and h: "0 < h"
      and io: "thumb_io lib = Thumbnail_saved" by simp_all
    from thumbnail_size_fits [OF w h, of "tie_to_ceiling lib"] obtain w' h' where
      ts: "thumbnail_size (tie_to_ceiling lib) (200, 200) (w, h) = Some (w', h')"
      and b: "1 \<le> w'" "w' \<le> 200" "1 \<le> h'" "h' \<le> 200"
             "\<bar>int w' * int h - int h' * int w\<bar> < int (max w h)"
      by blast
    have wr: "files ?fs2 ?orig = Some (Picture w h)" by (simp add: files_write_file d)
    have "files (snd (save_receipt_file lib folder token (Some f) u fs))
            = files (create_thumbnail lib folder ?orig u (unique_name u token ext) ?fs2)"
      using img by (simp add: save Let_def)
    also have "\<dots> = (files ?fs2)(?thumb \<mapsto> Picture w' h')"
      by (simp add: create_thumbnail_files [OF wr] ts tn io)
    also have "\<dots> = (files fs)(?orig \<mapsto> Picture w h, ?thumb \<mapsto> Picture w' h')"
      by (simp add: files_write_file files_makedirs d)
    finally have eq: "files (snd (save_receipt_file lib folder token (Some f) u fs))
            = (files fs)(?orig \<mapsto> Picture w h, ?thumb \<mapsto> Picture w' h')" .
    have ne: "?orig \<noteq> ?thumb"
      using original_neq_thumbnail [of folder u token ext] by (simp add: tn)
    from eq ne b
    show "\<exists>w' h'. files (snd (save_receipt_file lib folder token (Some f) u fs)) =
               (files fs)(?orig \<mapsto> Picture w h, ?thumb \<mapsto> Picture w' h')
             \<and> ?orig \<noteq> ?thumb
             \<and> 1 \<le> w' \<and> w' \<le> 200 \<and> 1 \<le> h' \<and> h' \<le> 200
             \<and> \<bar>int w' * int h - int h' * int w\<bar> < int (max w h)"
      by blast
  }
  {
    assume a: "lower ext \<in> {''.png'', ''.jpg'', ''.jpeg''} \<and> thumbnail_fails lib (data f)"
    then have img: "lower ext \<in> set [''.png'', ''.jpg'', ''.jpeg'']" by simp
    have wr: "files ?fs2 ?orig = Some (data f)" by (simp add: files_write_file)
    have ne: "?orig \<noteq> ?thumb"
      using original_neq_thumbnail [of folder u token ext] by (simp add: tn)
    then have t: "files ?fs2 ?thumb = files fs ?thumb" by (simp add: files_write_file files_makedirs)
    have f2: "files ?fs2 = (files fs)(?orig \<mapsto> data f)" by (simp add: files_write_file files_makedirs)
    have e: "files (snd (save_receipt_file lib folder token (Some f) u fs))
            = files (create_thumbnail lib folder ?orig u (unique_name u token ext) ?fs2)"
      using img by (simp add: save Let_def)
    have "files (create_thumbnail lib folder ?orig u (unique_name u token ext) ?fs2) = files ?fs2
        \<or> (\<exists>s. thumb_io lib = Save_raises (Some s) \<and> files fs ?thumb \<noteq> None
              \<and> files (create_thumbnail lib folder ?orig u (unique_name u token ext) ?fs2)
                  = (files ?fs2)(?thumb \<mapsto> Octets s))"
      using a t unfolding create_thumbnail_files [OF wr] thumbnail_fails_def tn
      by (auto split: file_data.splits option.splits thumbnail_io.splits)
    then show "files (snd (save_receipt_file lib folder token (Some f) u fs)) = (files fs)(?orig \<mapsto> data f)
          \<or> (\<exists>s. thumb_io lib = Save_raises (Some s) \<and> files fs ?thumb \<noteq> None
                \<and> files (snd (save_receipt_file lib folder token (Some f) u fs)) =
                    (files fs)(?orig \<mapsto> data f, ?thumb \<mapsto> Octets s))"
      unfolding e f2 .
  }
  {
    assume "lower ext = ''.pdf''"
    then show "files (snd (save_receipt_file lib folder token (Some f) u fs)) = (files fs)(?orig \<mapsto> data f)"
      by (simp add: save Let_def files_write_file files_makedirs)
  }
qed

section \<open>Storing a receipt: concrete runs\<close>

lemma thumbnail_size_photo: "thumbnail_size tie (200, 200) (1000, 500) = Some (200, 100)"
  by (simp add: thumbnail_size_def round_aspect_def Let_def)

lemma save_photo:
  "save_receipt_file plain_library ''/srv/receipts'' ''abcd1234'' (Some photo_upload) 1 empty_disk =
     (Some ''1_abcd1234.png'',
      \<lparr>files = [''/srv/receipts/1/1_abcd1234.png'' \<mapsto> Picture 1000 500,
                ''/srv/receipts/1/thumbnails/1_abcd1234_thumb.png'' \<mapsto> Picture 200 100],
       dirs = {''/srv/receipts/1/thumbnails'', ''/srv/receipts/1''}\<rparr>)"
  by (simp add: save_receipt_file_def photo_upload_def empty_disk_def eval_names plain_library_def
      create_thumbnail_def thumbnail_size_photo write_file_def makedirs_def)

text \<open>
  Claim C4 as stated fails. For receipt.png the store returns 1_abcd1234.png, and nothing
  is at \<open>thumbnails/1_abcd1234.png\<close>: the thumbnail is at
  \<open>thumbnails/1_abcd1234_thumb.png\<close>. A file named scan.jpg whose bytes are no image
  is stored with no thumbnail at all, and so is an image named shot.jpg where
  \<open>img.save\<close> raises, as it does for an image with transparency under a .jpg name.
\<close>

theorem thumbnail_path_counterexample:
  "fst (save_receipt_file plain_library ''/srv/receipts'' ''abcd1234'' (Some photo_upload) 1 empty_disk)
     = Some ''1_abcd1234.png''
   \<and> files (snd (save_receipt_file plain_library ''/srv/receipts'' ''abcd1234'' (Some photo_upload) 1 empty_disk))
       ''/srv/receipts/1/thumbnails/1_abcd1234.png'' = None
   \<and> files (snd (save_receipt_file plain_library ''/srv/receipts'' ''abcd1234'' (Some photo_upload) 1 empty_disk))
       ''/srv/receipts/1/thumbnails/1_abcd1234_thumb.png'' = Some (Picture 200 100)
   \<and> files (snd (save_receipt_file plain_library ''/srv/receipts'' ''abcd1234'' (Some damaged_scan) 1 empty_disk))
       = [''/srv/receipts/1/1_abcd1234.jpg'' \<mapsto> Octets ''not an image'']
   \<and> files (snd (save_receipt_file unsavable_library ''/srv/receipts'' ''abcd1234'' (Some shot_upload) 1
         empty_disk))
       = [''/srv/receipts/1/1_abcd1234.jpg'' \<mapsto> Picture 1000 500]"
proof -
  have u: "save_receipt_file unsavable_library ''/srv/receipts'' ''abcd1234'' (Some shot_upload) 1 empty_disk
     = (Some ''1_abcd1234.jpg'',
        \<lparr>files = [''/srv/receipts/1/1_abcd1234.jpg'' \<mapsto> Picture 1000 500],
         dirs = {''/srv/receipts/1/thumbnails'', ''/srv/receipts/1''}\<rparr>)"
    by (simp add: save_receipt_file_def shot_upload_def empty_disk_def eval_names plain_library_def
      unsavable_library_def create_thumbnail_def thumbnail_size_photo write_file_def makedirs_def)
  have "save_receipt_file plain_library ''/srv/receipts'' ''abcd1234'' (Some damaged_scan) 1 empty_disk
     = (Some ''1_abcd1234.jpg'',
        \<lparr>files = [''/srv/receipts/1/1_abcd1234.jpg'' \<mapsto> Octets ''not an image''],
         dirs = {''/srv/receipts/1''}\<rparr>)"
    by (simp add: save_receipt_file_def damaged_scan_def empty_disk_def eval_names plain_library_def
      create_thumbnail_def write_file_def makedirs_def)
  then show ?thesis by (simp add: save_photo u)
qed

text \<open>
  The photo is stored with a thumbnail within 200 by 200, the PDF alone.
\<close>

theorem save_receipt_file_original_and_thumbnail_witness:
  "fst (save_receipt_file plain_library ''/srv/receipts'' ''abcd1234'' (Some photo_upload) 1 empty_disk)
     = Some ''1_abcd1234.png''
   \<and> (\<exists>w' h'. files (snd (save_receipt_file plain_library ''/srv/receipts'' ''abcd1234'' (Some photo_upload) 1 empty_disk))
          = [''/srv/receipts/1/1_abcd1234.png'' \<mapsto> Picture 1000 500,
             ''/srv/receipts/1/thumbnails/1_abcd1234_thumb.png'' \<mapsto> Picture w' h']
        \<and> w' \<le> 200 \<and> h' \<le> 200)
   \<and> files (snd (save_receipt_file plain_library ''/srv/receipts'' ''abcd1234'' (Some pdf_upload) 1 empty_disk))
       = [''/srv/receipts/1/1_abcd1234.pdf'' \<mapsto> Octets ''%PDF-1.4'']"
proof -
  have hex: "set ''abcd1234'' \<subseteq> set ''0123456789abcdef''" by simp
  have a1: "allowed_file (filename photo_upload)"
    by (simp add: photo_upload_def eval_names)
  have s1: "splitext (secure_filename plain_library (filename photo_upload)) = (''receipt'', ''.png'')"
    by (simp add: photo_upload_def eval_names)
  have a2: "allowed_file (filename pdf_upload)"
    by (simp add: pdf_upload_def eval_names)
  have s2: "splitext (secure_filename plain_library (filename pdf_upload)) = (''invoice'', ''.pdf'')"
    by (simp add: pdf_upload_def eval_names)
  have d1: "data photo_upload = Picture 1000 500" by (simp add: photo_upload_def)
  have d2: "data pdf_upload = Octets ''%PDF-1.4''" by (simp add: pdf_upload_def)
  have l1: "lower ''.png'' \<in> {''.png'', ''.jpg'', ''.jpeg''}" by (simp add: lower_def lower_char_def)
  have io: "thumb_io plain_library = Thumbnail_saved" by (simp add: plain_library_def)
  have l2: "lower ''.pdf'' = ''.pdf''" by (simp add: lower_def lower_char_def)
  have p: "unique_name 1 ''abcd1234'' ''.png'' = ''1_abcd1234.png''"
    "unique_name 1 ''abcd1234'' ''.pdf'' = ''1_abcd1234.pdf''"
    "path_join ''/srv/receipts'' [str 1, ''1_abcd1234.png''] = ''/srv/receipts/1/1_abcd1234.png''"
    "path_join ''/srv/receipts'' [str 1, ''1_abcd1234.pdf''] = ''/srv/receipts/1/1_abcd1234.pdf''"
    "path_join ''/srv/receipts'' [str 1, ''thumbnails'', str 1 @ ''_'' @ ''abcd1234'' @ ''_thumb'' @ ''.png'']
       = ''/srv/receipts/1/thumbnails/1_abcd1234_thumb.png''"
    by (simp_all add: eval_names)
  have e: "files empty_disk = Map.empty" by (simp add: empty_disk_def)
  note i1 = save_receipt_file_original_and_thumbnail
    [OF a1 s1 hex, of "''/srv/receipts''" 1 empty_disk 1000 500, unfolded p e]
  note i2 = save_receipt_file_original_and_thumbnail
    [OF a2 s2 hex, of "''/srv/receipts''" 1 empty_disk 0 0, unfolded p e]
  from i1 have "fst (save_receipt_file plain_library ''/srv/receipts'' ''abcd1234'' (Some photo_upload) 1 empty_disk)
     = Some ''1_abcd1234.png''" by blast
  moreover from i1 l1 d1 io have "\<exists>w' h'. files (snd (save_receipt_file plain_library ''/srv/receipts'' ''abcd1234'' (Some photo_upload) 1 empty_disk))
          = [''/srv/receipts/1/1_abcd1234.png'' \<mapsto> Picture 1000 500,
             ''/srv/receipts/1/thumbnails/1_abcd1234_thumb.png'' \<mapsto> Picture w' h']
        \<and> w' \<le> 200 \<and> h' \<le> 200"
    by (elim conjE) auto
  moreover from i2 l2 d2 have "files (snd (save_receipt_file plain_library ''/srv/receipts'' ''abcd1234'' (Some pdf_upload) 1 empty_disk))
       = [''/srv/receipts/1/1_abcd1234.pdf'' \<mapsto> Octets ''%PDF-1.4'']"
    by (elim conjE) simp
  ultimately show ?thesis by blast
qed

section \<open>The routes: not found, and what an edit changes\<close>




lemma first_or_404_some:
  "first_or_404 tid u rows = Inr (Some txn) \<Longrightarrow> txn \<in> set rows \<and> txn_id txn = tid \<and> user_id txn = u"
  unfolding first_or_404_def by (induction rows) (auto split: if_splits)




lemma photo_disk_stored:
  "save_receipt_file plain_library ''/srv/receipts'' ''abcd1234'' (Some photo_upload) 1 empty_disk
     = (Some ''1_abcd1234.png'', photo_disk)"
  by (simp add: save_photo photo_disk_def)



lemma update_row_map:
  assumes "distinct (map txn_id rows)" "txn \<in> set rows" "txn_id t' = txn_id txn" "g t' = g txn"
  shows "map g (update_row t' rows) = map g rows"
proof -
  from assms(1) have inj: "inj_on txn_id (set rows)" by (simp add: distinct_map)
  have "g (if txn_id t = txn_id t' then t' else t) = g t" if "t \<in> set rows" for t
  proof (cases "txn_id t = txn_id t'")
    case True
    with assms(3) have "txn_id t = txn_id txn" by simp
    with inj that assms(2) have "t = txn" by (auto dest: inj_onD)
    with True assms(4) show ?thesis by simp
  next
    case False
    then show ?thesis by simp
  qed
  then show ?thesis by (simp add: update_row_def)
qed

lemma first_or_404_update_row:
  assumes "first_or_404 tid u rows = Inr (Some txn)" "txn_id t' = tid" "user_id t' = u"
  shows "first_or_404 tid u (update_row t' rows) = Inr (Some t')"
  using assms unfolding first_or_404_def update_row_def
  by (induction rows) (auto split: if_splits)

lemma validate_fields_present:
  "validate choices form \<Longrightarrow> \<exists>a d. form_amount form = Some a \<and> form_date form = Some d"
  by (auto simp: validate_def split: option.splits)

lemma edit_no_upload:
  assumes "\<not> upload_present (form_receipt form)"
  shows "edit_transaction lib folder token (POST form) tid u st =
     (case first_or_404 tid u (db_transactions st) of
        Inl e \<Rightarrow> (Internal_server_error_500, st)
      | Inr None \<Rightarrow> (Not_found_404, st)
      | Inr (Some txn) \<Rightarrow>
          if validate (category_choices u (db_categories st)) form
          then (Redirect ''main.transactions'' ''Transaction updated successfully!'',
                st\<lparr>db_transactions := update_row (update_fields form txn) (db_transactions st),
                   disk := disk st\<rparr>)
          else (Render_template ''edit_transaction.html'', st))"
  using assms
  by (simp add: edit_transaction_def validate_on_submit_def Let_def split: sum.splits option.splits)

text \<open>
  Claim C10. An edit whose form carries no file leaves the file system as it is and the
  \<open>receipt_filename\<close> of every row as it is (the ids being the primary key). Where the
  row is found and the form validates, the row afterwards is the row before with its
  amount, description, type, date, category and notes set from the form.
\<close>

theorem edit_without_upload_keeps_receipt:
  assumes "\<not> upload_present (form_receipt form)"
    and "distinct (map txn_id (db_transactions st))"
  shows "disk (snd (edit_transaction lib folder token (POST form) tid u st)) = disk st
     \<and> map receipt_filename (db_transactions (snd (edit_transaction lib folder token (POST form) tid u st)))
         = map receipt_filename (db_transactions st)
     \<and> (first_or_404 tid u (db_transactions st) = Inr (Some txn)
          \<and> validate (category_choices u (db_categories st)) form \<longrightarrow>
         (\<exists>a d. form_amount form = Some a \<and> form_date form = Some d
            \<and> first_or_404 tid u (db_transactions (snd (edit_transaction lib folder token (POST form) tid u st)))
                = Inr (Some (txn\<lparr>amount := a, description := form_description form,
                             transaction_type := form_transaction_type form, date := d,
                             category_id := category_or_none (form_category_id form),
                             txn_notes := form_notes form\<rparr>))))"
proof (intro conjI impI)
  note e = edit_no_upload [OF assms(1), of lib folder token tid u st]
  show "disk (snd (edit_transaction lib folder token (POST form) tid u st)) = disk st"
    by (simp add: e split: sum.splits option.splits)
  show "map receipt_filename (db_transactions (snd (edit_transaction lib folder token (POST form) tid u st)))
         = map receipt_filename (db_transactions st)"
  proof (cases "first_or_404 tid u (db_transactions st)")
    case (Inl err)
    then show ?thesis by (simp add: e)
  next
    case (Inr found)
    show ?thesis
    proof (cases found)
    case None
    with Inr show ?thesis by (simp add: e)
  next
    case (Some txn0)
    with Inr have Some: "first_or_404 tid u (db_transactions st) = Inr (Some txn0)" by simp
    from first_or_404_some [OF Some] have "txn0 \<in> set (db_transactions st)" by simp
    with assms(2) have "map receipt_filename (update_row (update_fields form txn0) (db_transactions st))
        = map receipt_filename (db_transactions st)"
      by (rule update_row_map) (simp_all add: update_fields_def)
    with Some show ?thesis by (simp add: e)
  qed
  qed
  assume a: "first_or_404 tid u (db_transactions st) = Inr (Some txn)
          \<and> validate (category_choices u (db_categories st)) form"
  then obtain a' d' where ad: "form_amount form = Some a'" "form_date form = Some d'"
    using validate_fields_present by blast
  from a first_or_404_some [of tid u "db_transactions st" txn]
  have ids: "txn_id (update_fields form txn) = tid" "user_id (update_fields form txn) = u"
    by (simp_all add: update_fields_def)
  from a have "first_or_404 tid u (update_row (update_fields form txn) (db_transactions st))
      = Inr (Some (update_fields form txn))"
    using ids by (intro first_or_404_update_row) simp_all
  with a ad show "\<exists>a d. form_amount form = Some a \<and> form_date form = Some d
            \<and> first_or_404 tid u (db_transactions (snd (edit_transaction lib folder token (POST form) tid u st)))
                = Inr (Some (txn\<lparr>amount := a, description := form_description form,
                             transaction_type := form_transaction_type form, date := d,
                             category_id := category_or_none (form_category_id form),
                             txn_notes := form_notes form\<rparr>))"
    by (simp add: e update_fields_def)
qed

section \<open>The routes: replacing and deleting a receipt\<close>

lemma lower_char_dot: "lower_char c = CHR ''.'' \<longleftrightarrow> c = CHR ''.''"
  by (simp add: lower_char_def) 

lemma endswith_append: "endswith s suf \<Longrightarrow> \<exists>pre. s = pre @ suf"
  unfolding endswith_def by (metis append_take_drop_id)

lemma lower_dot_suffix:
  assumes "lower fn = pre @ CHR ''.'' # x" "CHR ''.'' \<notin> set x"
  shows "\<exists>stem e. fn = stem @ CHR ''.'' # e \<and> CHR ''.'' \<notin> set e \<and> lower e = x"
proof -
  from assms(1) have "map lower_char fn = pre @ CHR ''.'' # x" by (simp add: lower_def)
  then obtain stem r where fn: "fn = stem @ r" and r: "map lower_char r = CHR ''.'' # x"
    by (auto simp: map_eq_append_conv)
  from r obtain c e where re: "r = c # e" and c: "lower_char c = CHR ''.''" and e: "map lower_char e = x"
    by (auto simp: map_eq_Cons_conv)
  from c have c': "c = CHR ''.''" by (simp add: lower_char_dot)
  have "CHR ''.'' \<notin> set e"
  proof
    assume "CHR ''.'' \<in> set e"
    then have "lower_char CHR ''.'' \<in> lower_char ` set e" by (rule imageI)
    then have "CHR ''.'' \<in> set (map lower_char e)" by (simp add: lower_char_dot [THEN iffD2])
    with e assms(2) show False by simp
  qed
  with fn re c' e show ?thesis by (auto simp: lower_def)
qed

lemma file_allowed_allowed_file:
  assumes "file_allowed (Some f)" "filename f \<noteq> []"
  shows "allowed_file (filename f)"
proof -
  from assms obtain x where x: "x \<in> set [''jpg'', ''jpeg'', ''png'', ''pdf'']"
      and ew: "endswith (lower (filename f)) (CHR ''.'' # x)"
    by (auto simp: file_allowed_def)
  from x have nd: "CHR ''.'' \<notin> set x" and al: "x \<in> ALLOWED_EXTENSIONS"
    by (auto simp: ALLOWED_EXTENSIONS_def)
  from ew obtain pre where "lower (filename f) = pre @ CHR ''.'' # x"
    using endswith_append by blast
  from lower_dot_suffix [OF this nd] al show ?thesis
    by (auto simp: allowed_file_iff)
qed

lemma files_remove_if_exists:
  "files (remove_if_exists p fs) = (files fs)(p := None)"
  by (auto simp: remove_if_exists_def fun_upd_idem_iff domIff)

lemma dirs_remove_if_exists: "dirs (remove_if_exists p fs) = dirs fs"
  by (simp add: remove_if_exists_def)

text \<open>Apart from the original and the thumbnail it writes, the store leaves every file alone.\<close>

lemma save_receipt_file_other_paths:
  assumes "allowed_file (filename f)"
    and "splitext (secure_filename lib (filename f)) = (stem, ext)"
    and "p \<noteq> path_join folder [str u, unique_name u token ext]"
    and "p \<noteq> path_join folder [str u, ''thumbnails'', thumb_name (unique_name u token ext)]"
  shows "files (snd (save_receipt_file lib folder token (Some f) u fs)) p = files fs p"
proof -
  let ?orig = "path_join folder [str u, unique_name u token ext]"
  let ?fs2 = "write_file ?orig (data f) (makedirs (path_join folder [str u]) fs)"
  have a: "files ?fs2 p = files fs p" using assms(3) by (simp add: files_write_file files_makedirs)
  have b: "files (create_thumbnail lib folder ?orig u (unique_name u token ext) ?fs2) p = files fs p"
    using create_thumbnail_other_paths [OF assms(4), of lib ?orig ?fs2] a by simp
  from a b show ?thesis
    by (simp add: save_receipt_file_allowed [OF assms(1,2)] Let_def)
qed

lemma unique_name_token_neq:
  assumes "length token = length old_token" "token \<noteq> old_token"
  shows "unique_name u token ext \<noteq> unique_name u old_token old_ext"
  using assms by (simp add: unique_name_def)

lemma edit_with_upload:
  assumes "first_or_404 tid u (db_transactions st) = Inr (Some txn)"
    and "validate (category_choices u (db_categories st)) form"
    and "upload_present (form_receipt form)"
  shows "edit_transaction lib folder token (POST form) tid u st =
     (Redirect ''main.transactions'' ''Transaction updated successfully!'',
      st\<lparr>db_transactions :=
           update_row (update_fields form
             (txn\<lparr>receipt_filename :=
                fst (save_receipt_file lib folder token (form_receipt form) u
                      (delete_old_receipt folder u txn (disk st)))\<rparr>)) (db_transactions st),
         disk := snd (save_receipt_file lib folder token (form_receipt form) u
                      (delete_old_receipt folder u txn (disk st)))\<rparr>)"
  using assms
  by (simp add: edit_transaction_def validate_on_submit_def Let_def split: prod.splits)

text \<open>
  Claim C6, as the code has it. A valid edit with a new upload, of a row that refers to a
  generated name \<open>F\<close>, sets the row's reference to the newly generated name and stores
  the new bytes under it; unless the new name is \<open>F\<close> again, no file is left at the
  path of \<open>F\<close>. The new name differs from \<open>F\<close> whenever the fresh token differs
  from the token of \<open>F\<close>, both being of the same length.
\<close>

theorem edit_with_upload_replaces_receipt:
  assumes "first_or_404 tid u (db_transactions st) = Inr (Some txn)"
    and "receipt_filename txn = Some (unique_name u old_token old_ext)"
    and "validate (category_choices u (db_categories st)) form"
    and "form_receipt form = Some f" and "filename f \<noteq> []"
    and "splitext (secure_filename lib (filename f)) = (stem, ext)"
  shows "first_or_404 tid u (db_transactions (snd (edit_transaction lib folder token (POST form) tid u st)))
           = Inr (Some (update_fields form (txn\<lparr>receipt_filename := Some (unique_name u token ext)\<rparr>)))
     \<and> files (disk (snd (edit_transaction lib folder token (POST form) tid u st)))
           (path_join folder [str u, unique_name u token ext]) = Some (data f)
     \<and> (unique_name u token ext \<noteq> unique_name u old_token old_ext \<longrightarrow>
           files (disk (snd (edit_transaction lib folder token (POST form) tid u st)))
             (path_join folder [str u, unique_name u old_token old_ext]) = None)
     \<and> (length token = length old_token \<and> token \<noteq> old_token \<longrightarrow>
           unique_name u token ext \<noteq> unique_name u old_token old_ext)"
proof (intro conjI impI)
  let ?F = "unique_name u old_token old_ext"
  let ?new = "unique_name u token ext"
  let ?fs0 = "delete_old_receipt folder u txn (disk st)"
  from assms(3,4) have fa: "file_allowed (Some f)" by (simp add: validate_def)
  from fa assms(5) have al: "allowed_file (filename f)" by (rule file_allowed_allowed_file)
  from assms(4,5) have up: "upload_present (form_receipt form)" by (simp add: upload_present_def)
  note e = edit_with_upload [OF assms(1) assms(3) up, of lib folder token, unfolded assms(4)]
  note sv = save_receipt_file_allowed [OF al assms(6), of folder token u ?fs0]
  have name: "fst (save_receipt_file lib folder token (Some f) u ?fs0) = Some ?new"
    by (simp add: sv)
  from first_or_404_some [OF assms(1)]
  have ids: "txn_id (update_fields form (txn\<lparr>receipt_filename := Some ?new\<rparr>)) = tid"
    "user_id (update_fields form (txn\<lparr>receipt_filename := Some ?new\<rparr>)) = u"
    by (simp_all add: update_fields_def)
  show "first_or_404 tid u (db_transactions (snd (edit_transaction lib folder token (POST form) tid u st)))
           = Inr (Some (update_fields form (txn\<lparr>receipt_filename := Some ?new\<rparr>)))"
    using first_or_404_update_row [OF assms(1) ids] by (simp add: e name)
  show "files (disk (snd (edit_transaction lib folder token (POST form) tid u st)))
           (path_join folder [str u, ?new]) = Some (data f)"
    using original_persists [OF al assms(6), of folder token u ?fs0] by (simp add: e)
  {
    assume ne: "?new \<noteq> ?F"
    note sF = unique_name_shape [of u old_token old_ext]
    note sN = unique_name_shape [of u token ext]
    from sF have hF: "hd ?F \<noteq> CHR ''/''" by auto
    from sN have hN: "hd ?new \<noteq> CHR ''/''" by auto
    have gone: "files ?fs0 (path_join folder [str u, ?F]) = None"
      using sF by (simp add: delete_old_receipt_def assms(2) files_remove_if_exists)
    have p1: "path_join folder [str u, ?F] \<noteq> path_join folder [str u, ?new]"
      using sF sN hF hN ne by (simp add: receipt_path_inj)
    have p2: "path_join folder [str u, ?F] \<noteq> path_join folder [str u, ''thumbnails'', thumb_name ?new]"
      using sF sN hN thumb_name_shape [of ?new] by (intro receipt_path_neq_thumb_path) simp_all
    from save_receipt_file_other_paths [OF al assms(6) p1 p2, of ?fs0] gone
    show "files (disk (snd (edit_transaction lib folder token (POST form) tid u st)))
             (path_join folder [str u, ?F]) = None"
      by (simp add: e)
  }
  {
    assume "length token = length old_token \<and> token \<noteq> old_token"
    then show "?new \<noteq> ?F" by (simp add: unique_name_token_neq)
  }
qed

section \<open>The routes: concrete runs\<close>

lemmas eval_state =
  shared_state_def receipt_row_def other_row_def mk_txn_def scenario_categories_def
  photo_disk_def edit_form_def replace_form_def new_photo_def

lemma shared_state_found: "first_or_404 2 1 (db_transactions shared_state) = Inr (Some receipt_row)"
  by (simp add: first_or_404_def sqlite_integer_def eval_state)

lemma shared_state_distinct: "distinct (map txn_id (db_transactions shared_state))"
  by (simp add: eval_state)

lemma validate_edit_form: "validate (category_choices 1 (db_categories shared_state)) edit_form"
  by (simp add: validate_def category_choices_def file_allowed_def blank_def len_def unicode_space_def
      is_continuation_def eval_state)

lemma validate_replace_form: "validate (category_choices 1 (db_categories shared_state)) replace_form"
  by (simp add: validate_def category_choices_def file_allowed_def blank_def len_def unicode_space_def
      is_continuation_def endswith_def lower_def lower_char_def eval_state)

text \<open>
  User 1 edits row 2 without a file: the disk and the receipt name stay, the amount
  becomes 500.
\<close>

theorem edit_without_upload_keeps_receipt_witness:
  "disk (snd (edit_transaction plain_library ''/srv/receipts'' ''0f0f0f0f'' (POST edit_form) 2 1 shared_state)) = photo_disk
   \<and> map receipt_filename
        (db_transactions (snd (edit_transaction plain_library ''/srv/receipts'' ''0f0f0f0f'' (POST edit_form) 2 1 shared_state)))
       = [Some ''1_abcd1234.png'', None]
   \<and> first_or_404 2 1
        (db_transactions (snd (edit_transaction plain_library ''/srv/receipts'' ''0f0f0f0f'' (POST edit_form) 2 1 shared_state)))
       = Inr (Some (receipt_row\<lparr>amount := 500, description := ''Groceries'', transaction_type := ''expense'',
                 date := \<lparr>year = 2024, month = 1, day = 12\<rparr>, category_id := Some 1, txn_notes := []\<rparr>))"
proof -
  have nu: "\<not> upload_present (form_receipt edit_form)"
    by (simp add: upload_present_def edit_form_def)
  note inst = edit_without_upload_keeps_receipt
    [OF nu shared_state_distinct, of plain_library "''/srv/receipts''" "''0f0f0f0f''" 2 1 receipt_row]
  have d: "disk shared_state = photo_disk" by (simp add: shared_state_def)
  have r: "map receipt_filename (db_transactions shared_state) = [Some ''1_abcd1234.png'', None]"
    by (simp add: eval_state)
  have f: "form_amount edit_form = Some 500" "form_date edit_form = Some \<lparr>year = 2024, month = 1, day = 12\<rparr>"
    "form_description edit_form = ''Groceries''" "form_transaction_type edit_form = ''expense''"
    "category_or_none (form_category_id edit_form) = Some 1" "form_notes edit_form = []"
    by (simp_all add: edit_form_def category_or_none_def)
  from inst shared_state_found validate_edit_form show ?thesis
    by (auto simp: d r f)
qed

text \<open>
  Claim C5 at a failing input. User 1 deletes row 2, whose receipt 1_abcd1234.png was
  stored with its thumbnail. The row and the original are gone and a later download
  answers 404, but the thumbnail \<open>thumbnails/1_abcd1234_thumb.png\<close> is still there: the
  route removes \<open>thumbnails/1_abcd1234.png\<close>, a path at which nothing was written.
\<close>

theorem delete_transaction_leaves_thumbnail:
  "fst (delete_transaction ''/srv/receipts'' 2 1 shared_state)
     = Redirect ''main.transactions'' ''Transaction deleted successfully!''
   \<and> db_transactions (snd (delete_transaction ''/srv/receipts'' 2 1 shared_state)) = [other_row]
   \<and> files (disk (snd (delete_transaction ''/srv/receipts'' 2 1 shared_state)))
        ''/srv/receipts/1/1_abcd1234.png'' = None
   \<and> files (disk (snd (delete_transaction ''/srv/receipts'' 2 1 shared_state)))
        ''/srv/receipts/1/thumbnails/1_abcd1234_thumb.png'' = Some (Picture 200 100)
   \<and> download_receipt ''/srv/receipts'' 2 1 (snd (delete_transaction ''/srv/receipts'' 2 1 shared_state))
        = Not_found_404"
proof -
  have p: "path_join ''/srv/receipts'' [str 1, ''1_abcd1234.png''] = ''/srv/receipts/1/1_abcd1234.png''"
    "path_join ''/srv/receipts'' [str 1, ''thumbnails'', ''1_abcd1234.png'']
       = ''/srv/receipts/1/thumbnails/1_abcd1234.png''"
    by (simp_all add: eval_names)
  have r: "receipt_filename receipt_row = Some ''1_abcd1234.png''" "txn_id receipt_row = 2"
    "txn_id other_row = 7" "user_id other_row = 2"
    by (simp_all add: eval_state)
  have d: "delete_transaction ''/srv/receipts'' 2 1 shared_state =
     (Redirect ''main.transactions'' ''Transaction deleted successfully!'',
      shared_state\<lparr>db_transactions := [other_row],
        disk := remove_if_exists ''/srv/receipts/1/thumbnails/1_abcd1234.png''
                 (remove_if_exists ''/srv/receipts/1/1_abcd1234.png'' photo_disk)\<rparr>)"
    by (simp add: delete_transaction_def shared_state_found delete_receipt_files_def r p Let_def
        delete_row_def) (simp add: shared_state_def r)
  show ?thesis
    by (simp add: d files_remove_if_exists download_receipt_def first_or_404_def sqlite_integer_def r)
       (simp add: photo_disk_def)
qed

lemma thumbnail_size_new_photo: "thumbnail_size tie (200, 200) (120, 80) = Some (120, 80)"
  by (simp add: thumbnail_size_def)

lemma save_new_photo:
  "fst (save_receipt_file plain_library ''/srv/receipts'' ''0f0f0f0f'' (Some new_photo) 1 fs) = Some ''1_0f0f0f0f.png''"
  "files (snd (save_receipt_file plain_library ''/srv/receipts'' ''0f0f0f0f'' (Some new_photo) 1 fs))
     = (files fs)(''/srv/receipts/1/1_0f0f0f0f.png'' \<mapsto> Picture 120 80,
                  ''/srv/receipts/1/thumbnails/1_0f0f0f0f_thumb.png'' \<mapsto> Picture 120 80)"
  "fst (save_receipt_file plain_library ''/srv/receipts'' ''abcd1234'' (Some new_photo) 1 fs) = Some ''1_abcd1234.png''"
  by (simp_all add: save_receipt_file_def new_photo_def eval_names create_thumbnail_def plain_library_def
      thumbnail_size_new_photo write_file_def makedirs_def)

lemma old_receipt_deleted:
  "delete_old_receipt ''/srv/receipts'' 1 receipt_row photo_disk
     = remove_if_exists ''/srv/receipts/1/1_abcd1234.png'' photo_disk"
  by (simp add: delete_old_receipt_def receipt_row_def mk_txn_def eval_names)

lemma replace_form_upload:
  "form_receipt replace_form = Some new_photo" "upload_present (form_receipt replace_form)"
  by (simp_all add: replace_form_def upload_present_def new_photo_def)

lemma edit_replace:
  "edit_transaction plain_library ''/srv/receipts'' token (POST replace_form) 2 1 shared_state =
     (Redirect ''main.transactions'' ''Transaction updated successfully!'',
      shared_state\<lparr>db_transactions :=
           update_row (update_fields replace_form
             (receipt_row\<lparr>receipt_filename :=
                fst (save_receipt_file plain_library ''/srv/receipts'' token (Some new_photo) 1
                      (remove_if_exists ''/srv/receipts/1/1_abcd1234.png'' photo_disk))\<rparr>))
             [receipt_row, other_row],
         disk := snd (save_receipt_file plain_library ''/srv/receipts'' token (Some new_photo) 1
                      (remove_if_exists ''/srv/receipts/1/1_abcd1234.png'' photo_disk))\<rparr>)"
proof -
  have d: "disk shared_state = photo_disk" "db_transactions shared_state = [receipt_row, other_row]"
    by (simp_all add: shared_state_def)
  show ?thesis
    unfolding edit_with_upload [OF shared_state_found validate_replace_form replace_form_upload(2)]
      replace_form_upload(1) d old_receipt_deleted
    by (rule refl)
qed

text \<open>
  Claim C6 as stated fails. After the edit with the token 0f0f0f0f the thumbnail of the
  old receipt is still in the file system. And should the fresh token be abcd1234 again,
  the new reference is the old one, 1_abcd1234.png.
\<close>

theorem edit_replacement_counterexample:
  "files (disk (snd (edit_transaction plain_library ''/srv/receipts'' ''0f0f0f0f'' (POST replace_form) 2 1 shared_state)))
      ''/srv/receipts/1/thumbnails/1_abcd1234_thumb.png'' = Some (Picture 200 100)
   \<and> map receipt_filename (db_transactions shared_state) = [Some ''1_abcd1234.png'', None]
   \<and> map receipt_filename
        (db_transactions (snd (edit_transaction plain_library ''/srv/receipts'' ''abcd1234'' (POST replace_form) 2 1 shared_state)))
       = [Some ''1_abcd1234.png'', None]"
proof -
  have a: "files (disk (snd (edit_transaction plain_library ''/srv/receipts'' ''0f0f0f0f'' (POST replace_form) 2 1 shared_state)))
      ''/srv/receipts/1/thumbnails/1_abcd1234_thumb.png'' = Some (Picture 200 100)"
    by (simp add: edit_replace save_new_photo files_remove_if_exists photo_disk_def)
  have b: "map receipt_filename (db_transactions shared_state) = [Some ''1_abcd1234.png'', None]"
    by (simp add: eval_state)
  have c: "map receipt_filename
        (db_transactions (snd (edit_transaction plain_library ''/srv/receipts'' ''abcd1234'' (POST replace_form) 2 1 shared_state)))
       = [Some ''1_abcd1234.png'', None]"
    by (simp add: edit_replace save_new_photo update_row_def update_fields_def) (simp add: eval_state)
  from a b c show ?thesis by simp
qed

text \<open>
  User 1 replaces the receipt of row 2: the row refers to 1_0f0f0f0f.png, which holds the
  new photo, and 1_abcd1234.png is gone.
\<close>

theorem edit_with_upload_replaces_receipt_witness:
  "map_sum id (map_option receipt_filename) (first_or_404 2 1
      (db_transactions (snd (edit_transaction plain_library ''/srv/receipts'' ''0f0f0f0f'' (POST replace_form) 2 1 shared_state))))
     = Inr (Some (Some ''1_0f0f0f0f.png''))
   \<and> files (disk (snd (edit_transaction plain_library ''/srv/receipts'' ''0f0f0f0f'' (POST replace_form) 2 1 shared_state)))
       ''/srv/receipts/1/1_0f0f0f0f.png'' = Some (Picture 120 80)
   \<and> files (disk (snd (edit_transaction plain_library ''/srv/receipts'' ''0f0f0f0f'' (POST replace_form) 2 1 shared_state)))
       ''/srv/receipts/1/1_abcd1234.png'' = None"
proof -
  have old: "receipt_filename receipt_row = Some (unique_name 1 ''abcd1234'' ''.png'')"
    by (simp add: receipt_row_def mk_txn_def eval_names)
  have fn: "filename new_photo \<noteq> []" by (simp add: new_photo_def)
  have s: "splitext (secure_filename plain_library (filename new_photo)) = (''new'', ''.png'')"
    by (simp add: new_photo_def eval_names)
  have n: "unique_name 1 ''0f0f0f0f'' ''.png'' = ''1_0f0f0f0f.png''"
    "unique_name 1 ''abcd1234'' ''.png'' = ''1_abcd1234.png''"
    by (simp_all add: eval_names)
  have p: "path_join ''/srv/receipts'' [str 1, ''1_0f0f0f0f.png''] = ''/srv/receipts/1/1_0f0f0f0f.png''"
    "path_join ''/srv/receipts'' [str 1, ''1_abcd1234.png''] = ''/srv/receipts/1/1_abcd1234.png''"
    by (simp_all add: eval_names)
  have d: "data new_photo = Picture 120 80" by (simp add: new_photo_def)
  note inst = edit_with_upload_replaces_receipt
    [OF shared_state_found old validate_replace_form replace_form_upload(1) fn s,
     of "''/srv/receipts''" "''0f0f0f0f''", unfolded n p d]
  have l: "length ''0f0f0f0f'' = length ''abcd1234'' \<and> ''0f0f0f0f'' \<noteq> ''abcd1234''" by simp
  from inst have "first_or_404 2 1
      (db_transactions (snd (edit_transaction plain_library ''/srv/receipts'' ''0f0f0f0f'' (POST replace_form) 2 1 shared_state)))
     = Inr (Some (update_fields replace_form (receipt_row\<lparr>receipt_filename := Some ''1_0f0f0f0f.png''\<rparr>)))"
    by blast
  then have a: "map_sum id (map_option receipt_filename) (first_or_404 2 1
      (db_transactions (snd (edit_transaction plain_library ''/srv/receipts'' ''0f0f0f0f'' (POST replace_form) 2 1 shared_state))))
     = Inr (Some (Some ''1_0f0f0f0f.png''))"
    by (simp add: update_fields_def)
  from inst have b: "files (disk (snd (edit_transaction plain_library ''/srv/receipts'' ''0f0f0f0f'' (POST replace_form) 2 1 shared_state)))
       ''/srv/receipts/1/1_0f0f0f0f.png'' = Some (Picture 120 80)"
    by blast
  from inst l have c: "files (disk (snd (edit_transaction plain_library ''/srv/receipts'' ''0f0f0f0f'' (POST replace_form) 2 1 shared_state)))
       ''/srv/receipts/1/1_abcd1234.png'' = None"
    by blast
  from a b c show ?thesis by simp
qed

lemma thumb_name_neq: "thumb_name fname \<noteq> fname"
proof -
  obtain a b where s: "splitext fname = (a, b)" by (cases "splitext fname")
  then have "a @ b = fname" by (rule splitext_append)
  then have "length (thumb_name fname) = length fname + 6"
    using s by (auto simp: thumb_name_def)
  then show ?thesis by auto
qed

text \<open>
  What \<open>delete_transaction\<close> leaves behind: the thumbnail that \<open>create_thumbnail\<close>
  wrote for a generated name is at a path the route does not touch.
\<close>

lemma delete_transaction_keeps_generated_thumbnail:
  assumes "first_or_404 tid u (db_transactions st) = Inr (Some txn)"
    and "receipt_filename txn = Some (unique_name u token ext)"
  shows "files (disk (snd (delete_transaction folder tid u st)))
           (path_join folder [str u, ''thumbnails'', thumb_name (unique_name u token ext)])
         = files (disk st)
           (path_join folder [str u, ''thumbnails'', thumb_name (unique_name u token ext)])"
proof -
  let ?F = "unique_name u token ext"
  note sF = unique_name_shape [of u token ext]
  from sF have hF: "hd ?F \<noteq> CHR ''/''" by auto
  note sT = thumb_name_shape [of ?F]
  have p1: "path_join folder [str u, ''thumbnails'', thumb_name ?F] \<noteq> path_join folder [str u, ?F]"
    using original_neq_thumbnail [of folder u token ext] by simp
  have p2: "path_join folder [str u, ''thumbnails'', thumb_name ?F]
              \<noteq> path_join folder [str u, ''thumbnails'', ?F]"
    using sF hF sT thumb_name_neq [of ?F] by (simp add: thumb_path_inj)
  from sF have ne: "?F \<noteq> []" by simp
  show ?thesis
    using p1 p2 ne
    by (simp add: delete_transaction_def assms delete_receipt_files_def Let_def files_remove_if_exists)
qed

end
